theory Spec2Isabelle
  imports Complex_Main "HOL-Library.Multiset"
begin

section \<open>The MDAP executor of langspace (pkg/runtime, executor for mdap\_pipeline entities)\<close>

text \<open>
  The development embeds the executor of MDAP pipelines: the configuration resolver
  (\<open>DefaultMDAPConfig\<close>, \<open>loadMDAPConfig\<close>), the step loop (\<open>executeMDAPPipeline\<close>), the
  per-step voting procedure (\<open>executeMicrostepWithVoting\<close>), the sampler
  (\<open>parallelSample\<close>), the red-flag filter (\<open>isRedFlagged\<close>), the arbiter (\<open>hasWinner\<close>,
  \<open>getWinner\<close>), the prompt builder and the response parser.

  Conventions of the embedding.
  \<^item> Go's \<open>int\<close> is the 64-bit signed integer of the usual targets. Counters that grow by
    one per loop iteration, or by the length of a slice held in memory, stay far below
    \<open>2^63\<close> and are kept as exact integers. Arithmetic on values that come straight from
    the configuration (\<open>secondMax + k\<close>, \<open>config.K * 3\<close>) wraps around, and the wrap is
    written out with \<open>wrap64\<close>.
  \<^item> A \<open>float64\<close> property value is a rational number (every finite \<open>float64\<close> is one).
  \<^item> A Go \<open>map\<close> with string keys that the code ranges over is an association list with
    distinct keys, kept in insertion order; the order in which \<open>range\<close> visits it is not
    fixed by the language and is drawn anew by every \<open>range\<close> statement. It is a parameter
    of the run (\<open>rangeOrder\<close>), given for every step index, for each of the two \<open>range\<close>
    statements of the arbiter and for every tally. Within one step the tally grows between
    two calls of \<open>hasWinner\<close> and \<open>getWinner\<close> is called once, so no two \<open>range\<close>
    statements that a run executes share the three, and the parameter fixes the order of
    each of them independently of the others.
  \<^item> A run-time panic is a value of type \<open>fault\<close>; a Go \<open>error\<close> is a value of type
    \<open>error\<close>.
  \<^item> Wall-clock values (\<open>StartTime\<close>, \<open>EndTime\<close>, \<open>Duration\<close>, \<open>Timestamp\<close>) and the
    free-text \<open>Message\<close> of a progress event are not part of the embedding.
\<close>

subsection \<open>Integers and their decimal rendering\<close>

definition wrap64 :: "int \<Rightarrow> int" where
  "wrap64 x = (x + 2 ^ 63) mod 2 ^ 64 - 2 ^ 63"

text \<open>\<open>int(f)\<close> for a \<open>float64\<close> \<open>f\<close>: the fraction is discarded (truncation towards zero).
  Outside the range of \<open>int\<close> the language leaves the result to the implementation; no
  statement below depends on the converted value there.\<close>

definition goInt :: "rat \<Rightarrow> int" where
  "goInt q = (if 0 \<le> q then \<lfloor>q\<rfloor> else \<lceil>q\<rceil>)"

definition digitChar :: "nat \<Rightarrow> char" where
  "digitChar d = ''0123456789'' ! d"

function showNat :: "nat \<Rightarrow> string" where
  "showNat n = (if n < 10 then [digitChar n] else showNat (n div 10) @ [digitChar (n mod 10)])"
  by pat_completeness auto
termination
  by (relation "measure id") auto

declare showNat.simps [simp del]

text \<open>\<open>fmt.Sprintf("%d", i)\<close>.\<close>

definition showInt :: "int \<Rightarrow> string" where
  "showInt i = (if i < 0 then CHR ''-'' # showNat (nat (- i)) else showNat (nat i))"

subsection \<open>Entities and property values\<close>

text \<open>Modelled from the spec: the \<open>ast\<close> package is not among the sources. A property value is
  a string, a number, a boolean, a typed and named reference, or some other variant; an
  entity exposes a name and a property bag read with \<open>GetProperty\<close>.\<close>

datatype val =
    StringValue string
  | NumberValue rat
  | BoolValue bool
  | ReferenceValue string string
  | OtherValue string

type_synonym props = "string \<rightharpoonup> val"

record microstep_entity =
  msName :: string
  msProps :: props

record plain_entity =
  entType :: string
  entName :: string
  entProps :: props

record mdap_pipeline_entity =
  plName :: string
  plProps :: props
  Microsteps :: "microstep_entity list"
  Config :: "props option"

subsection \<open>Configuration\<close>

record mdap_config =
  VotingStrategy :: string
  K :: int
  ParallelSamples :: int
  TemperatureFirst :: rat
  TemperatureSubsequent :: rat
  MaxOutputTokens :: int
  RequireFormat :: bool
  CheckpointInterval :: int
  MaxRetries :: int
  OutputPattern :: "(string \<Rightarrow> bool) option"

text \<open>\<open>OutputPattern\<close> is a \<open>*regexp.Regexp\<close>; the embedding keeps its \<open>MatchString\<close>, and
  \<open>None\<close> is the nil pointer.\<close>

definition DefaultMDAPConfig :: mdap_config where
  "DefaultMDAPConfig =
     \<lparr> VotingStrategy = ''first-to-ahead-by-k'',
       K = 3,
       ParallelSamples = 3,
       TemperatureFirst = 0,
       TemperatureSubsequent = 1 / 10,
       MaxOutputTokens = 750,
       RequireFormat = True,
       CheckpointInterval = 1000,
       MaxRetries = 100,
       OutputPattern = None \<rparr>"

definition setVotingStrategy :: "props \<Rightarrow> mdap_config \<Rightarrow> mdap_config" where
  "setVotingStrategy cfg c =
     (case cfg ''voting_strategy'' of
        Some (StringValue sv) \<Rightarrow> c\<lparr>VotingStrategy := sv\<rparr>
      | _ \<Rightarrow> c)"

definition setK :: "props \<Rightarrow> mdap_config \<Rightarrow> mdap_config" where
  "setK cfg c =
     (case cfg ''k'' of
        Some (NumberValue nv) \<Rightarrow>
          (let c' = c\<lparr>K := goInt nv\<rparr>
           in if ParallelSamples c' = 0 then c'\<lparr>ParallelSamples := K c'\<rparr> else c')
      | _ \<Rightarrow> c)"

definition setParallelSamples :: "props \<Rightarrow> mdap_config \<Rightarrow> mdap_config" where
  "setParallelSamples cfg c =
     (case cfg ''parallel_samples'' of
        Some (NumberValue nv) \<Rightarrow> c\<lparr>ParallelSamples := goInt nv\<rparr>
      | _ \<Rightarrow> c)"

definition setTemperatureFirst :: "props \<Rightarrow> mdap_config \<Rightarrow> mdap_config" where
  "setTemperatureFirst cfg c =
     (case cfg ''temperature_first'' of
        Some (NumberValue nv) \<Rightarrow> c\<lparr>TemperatureFirst := nv\<rparr>
      | _ \<Rightarrow> c)"

definition setTemperatureSubsequent :: "props \<Rightarrow> mdap_config \<Rightarrow> mdap_config" where
  "setTemperatureSubsequent cfg c =
     (case cfg ''temperature_subsequent'' of
        Some (NumberValue nv) \<Rightarrow> c\<lparr>TemperatureSubsequent := nv\<rparr>
      | _ \<Rightarrow> c)"

definition setMaxOutputTokens :: "props \<Rightarrow> mdap_config \<Rightarrow> mdap_config" where
  "setMaxOutputTokens cfg c =
     (case cfg ''max_output_tokens'' of
        Some (NumberValue nv) \<Rightarrow> c\<lparr>MaxOutputTokens := goInt nv\<rparr>
      | _ \<Rightarrow> c)"

definition setRequireFormat :: "props \<Rightarrow> mdap_config \<Rightarrow> mdap_config" where
  "setRequireFormat cfg c =
     (case cfg ''require_format'' of
        Some (BoolValue bv) \<Rightarrow> c\<lparr>RequireFormat := bv\<rparr>
      | _ \<Rightarrow> c)"

definition setCheckpointInterval :: "props \<Rightarrow> mdap_config \<Rightarrow> mdap_config" where
  "setCheckpointInterval cfg c =
     (case cfg ''checkpoint_interval'' of
        Some (NumberValue nv) \<Rightarrow> c\<lparr>CheckpointInterval := goInt nv\<rparr>
      | _ \<Rightarrow> c)"

text \<open>\<open>loadMDAPConfig\<close>: the defaults, then the eight property reads in the order of the
  source, each one an update of the configuration built so far.\<close>

definition loadMDAPConfig :: "mdap_pipeline_entity \<Rightarrow> mdap_config" where
  "loadMDAPConfig pipeline =
     (case Config pipeline of
        None \<Rightarrow> DefaultMDAPConfig
      | Some cfg \<Rightarrow>
          setCheckpointInterval cfg
            (setRequireFormat cfg
              (setMaxOutputTokens cfg
                (setTemperatureSubsequent cfg
                  (setTemperatureFirst cfg
                    (setParallelSamples cfg
                      (setK cfg
                        (setVotingStrategy cfg DefaultMDAPConfig))))))))"

subsection \<open>Strings: the functions of package \<open>strings\<close> that the executor calls\<close>

text \<open>A Go string is a sequence of bytes. \<open>strings.Split(s, "\n")\<close>: the pieces between the
  newlines, one piece more than there are newlines.\<close>

fun splitOn :: "char \<Rightarrow> string \<Rightarrow> string list" where
  "splitOn c [] = [[]]"
| "splitOn c (x # xs) =
     (if x = c then [] # splitOn c xs
      else (case splitOn c xs of
              [] \<Rightarrow> [[x]]
            | l # ls \<Rightarrow> (x # l) # ls))"

text \<open>\<open>strings.SplitN(s, "=", 2)\<close> has two pieces exactly when \<open>s\<close> holds an \<open>=\<close>: the text
  before the first one and the text after it.\<close>

fun cutAt :: "char \<Rightarrow> string \<Rightarrow> (string \<times> string) option" where
  "cutAt c [] = None"
| "cutAt c (x # xs) =
     (if x = c then Some ([], xs)
      else (case cutAt c xs of
              None \<Rightarrow> None
            | Some (a, b) \<Rightarrow> Some (x # a, b)))"

definition HasPrefix :: "string \<Rightarrow> string \<Rightarrow> bool" where
  "HasPrefix s p = (take (length p) s = p)"

text \<open>\<open>strings.TrimSpace\<close> removes the leading and trailing runes for which
  \<open>unicode.IsSpace\<close> holds: the six ASCII ones, U+0085 and U+00A0 (two bytes in UTF-8), and
  U+1680, U+2000 to U+200A, U+2028, U+2029, U+202F, U+205F, U+3000 (three bytes). A rune is
  decoded only from its shortest encoding, so a leading (trailing) white-space rune is a
  prefix (suffix) that is one of these byte sequences.\<close>

definition asciiSpace :: "char \<Rightarrow> bool" where
  "asciiSpace c = (c = CHR 0x09 \<or> c = CHR 0x0A \<or> c = CHR 0x0B \<or> c = CHR 0x0C
                    \<or> c = CHR 0x0D \<or> c = CHR 0x20)"

definition space2 :: "char \<Rightarrow> char \<Rightarrow> bool" where
  "space2 a b = (a = CHR 0xC2 \<and> (b = CHR 0x85 \<or> b = CHR 0xA0))"

definition space3 :: "char \<Rightarrow> char \<Rightarrow> char \<Rightarrow> bool" where
  "space3 a b c =
     ((a = CHR 0xE1 \<and> b = CHR 0x9A \<and> c = CHR 0x80)
      \<or> (a = CHR 0xE2 \<and> b = CHR 0x80 \<and> (0x80::nat) \<le> of_char c \<and> of_char c \<le> (0x8A::nat))
      \<or> (a = CHR 0xE2 \<and> b = CHR 0x80 \<and> (c = CHR 0xA8 \<or> c = CHR 0xA9 \<or> c = CHR 0xAF))
      \<or> (a = CHR 0xE2 \<and> b = CHR 0x81 \<and> c = CHR 0x9F)
      \<or> (a = CHR 0xE3 \<and> b = CHR 0x80 \<and> c = CHR 0x80))"

fun trimLeftSpace :: "string \<Rightarrow> string" where
  "trimLeftSpace (a # b # c # s) =
     (if asciiSpace a then trimLeftSpace (b # c # s)
      else if space2 a b then trimLeftSpace (c # s)
      else if space3 a b c then trimLeftSpace s
      else a # b # c # s)"
| "trimLeftSpace [a, b] =
     (if asciiSpace a then trimLeftSpace [b]
      else if space2 a b then []
      else [a, b])"
| "trimLeftSpace [a] = (if asciiSpace a then [] else [a])"
| "trimLeftSpace [] = []"

text \<open>The same from the end, on the reversed string: \<open>a\<close> is the last byte.\<close>

fun trimRightSpaceRev :: "string \<Rightarrow> string" where
  "trimRightSpaceRev (a # b # c # s) =
     (if asciiSpace a then trimRightSpaceRev (b # c # s)
      else if space2 b a then trimRightSpaceRev (c # s)
      else if space3 c b a then trimRightSpaceRev s
      else a # b # c # s)"
| "trimRightSpaceRev [a, b] =
     (if asciiSpace a then trimRightSpaceRev [b]
      else if space2 b a then []
      else [a, b])"
| "trimRightSpaceRev [a] = (if asciiSpace a then [] else [a])"
| "trimRightSpaceRev [] = []"

definition TrimSpace :: "string \<Rightarrow> string" where
  "TrimSpace s = rev (trimRightSpaceRev (rev (trimLeftSpace s)))"

text \<open>\<open>strings.Join(parts, sep)\<close>.\<close>

fun Join :: "string list \<Rightarrow> string \<Rightarrow> string" where
  "Join [] sep = []"
| "Join [p] sep = p"
| "Join (p # q # ps) sep = p @ sep @ Join (q # ps) sep"

subsection \<open>States, samples and the response parser\<close>

text \<open>The execution state is an \<open>interface{}\<close>: nil, a string (what the parser extracts), the
  empty map the step loop starts from when there is no input, or any other input value,
  which the executor only prints with \<open>%v\<close> and is kept as that rendering.\<close>

datatype goval = GoNil | GoString string | GoEmptyMap | GoOther string

record mdap_sample =
  Content :: string
  Action :: string
  NextState :: goval
  TokenCount :: int
  RedFlagged :: bool
  RedFlagReason :: string

definition parseLine :: "string \<Rightarrow> string \<times> goval \<Rightarrow> string \<times> goval" where
  "parseLine raw acc =
     (let line = TrimSpace raw;
          action = fst acc;
          nextState = snd acc;
          action' =
            (if HasPrefix line ''move'' \<or> HasPrefix line ''Move''
             then (case cutAt CHR ''='' line of
                     Some (l, r) \<Rightarrow> TrimSpace r
                   | None \<Rightarrow> action)
             else action);
          nextState' =
            (if HasPrefix line ''next_state'' \<or> HasPrefix line ''Next_state''
             then (case cutAt CHR ''='' line of
                     Some (l, r) \<Rightarrow> GoString (TrimSpace r)
                   | None \<Rightarrow> nextState)
             else nextState)
      in (action', nextState'))"

definition parseHanoiResponse :: "string \<Rightarrow> string \<times> goval" where
  "parseHanoiResponse content = fold parseLine (splitOn CHR 0x0A content) ([], GoNil)"

subsection \<open>The red-flag filter\<close>

text \<open>\<open>isRedFlagged\<close> writes the flag and the reason into the sample it is given; the
  embedding returns the sample as it is after the call.\<close>

definition isRedFlagged :: "mdap_sample \<Rightarrow> mdap_config \<Rightarrow> bool \<times> mdap_sample" where
  "isRedFlagged sample config =
     (if RedFlagged sample then (True, sample)
      else if MaxOutputTokens config > 0 \<and> TokenCount sample > MaxOutputTokens config
      then (True, sample\<lparr>RedFlagged := True,
                        RedFlagReason := ''response too long: '' @ showInt (TokenCount sample)
                          @ '' tokens > '' @ showInt (MaxOutputTokens config)\<rparr>)
      else if RequireFormat config
              \<and> (case OutputPattern config of
                    None \<Rightarrow> False
                  | Some MatchString \<Rightarrow> \<not> MatchString (Content sample))
      then (True, sample\<lparr>RedFlagged := True,
                        RedFlagReason := ''response does not match required format''\<rparr>)
      else if Action sample = []
      then (True, sample\<lparr>RedFlagged := True,
                        RedFlagReason := ''could not extract action from response''\<rparr>)
      else (False, sample))"

subsection \<open>The arbiter\<close>

text \<open>Both functions range over the tally; \<open>kvs\<close> is the tally in the order the \<open>range\<close>
  statement visits it.\<close>

definition scanVotes :: "int \<Rightarrow> int \<times> int \<Rightarrow> int \<times> int" where
  "scanVotes v acc =
     (let maxVotes = fst acc; secondMax = snd acc
      in if v > maxVotes then (v, maxVotes)
         else if v > secondMax then (maxVotes, v)
         else (maxVotes, secondMax))"

definition hasWinner :: "(string \<times> int) list \<Rightarrow> int \<Rightarrow> bool" where
  "hasWinner kvs k =
     (if length kvs = 0 then False
      else (let acc = fold scanVotes (map snd kvs) (0, 0)
            in fst acc \<ge> wrap64 (snd acc + k)))"

definition scanWinner :: "string \<times> int \<Rightarrow> int \<times> string \<Rightarrow> int \<times> string" where
  "scanWinner kv acc =
     (let maxVotes = fst acc; winner = snd acc
      in if snd kv > maxVotes then (snd kv, fst kv) else (maxVotes, winner))"

definition getWinner :: "(string \<times> int) list \<Rightarrow> string" where
  "getWinner kvs = snd (fold scanWinner kvs (0, []))"

subsection \<open>Errors, faults and the collaborators of the executor\<close>

datatype error =
    NoUseProperty string
  | ExpectedAgentReference string
  | CannotResolveAgent
  | NoConsensus int int
  | MicrostepFailed string error
  | External string

text \<open>\<open>NoConsensus total rejected\<close> is "failed to reach consensus after \<open>total\<close> samples
  (\<open>rejected\<close> rejected)"; \<open>MicrostepFailed name err\<close> wraps \<open>err\<close> with the name of the
  microstep; \<open>External\<close> is an error of a collaborator.\<close>

datatype fault =
    IndexOutOfRange int int
  | MakeSliceLenOutOfRange int
  | IntegerDivideByZero
  | NilDereference

text \<open>The two \<open>range\<close> statements over the tally: the one of \<open>hasWinner\<close> and the one of
  \<open>getWinner\<close>. A \<open>visit_order\<close> gives, for each of them and for a tally, the order in which
  the statement visits the entries.\<close>

datatype range_site = RangeHasWinner | RangeGetWinner

type_synonym visit_order = "range_site \<Rightarrow> (string \<times> int) list \<Rightarrow> (string \<times> int) list"

record completion_request =
  reqModel :: string
  reqSystemPrompt :: string
  reqMessages :: "(string \<times> string) list"
  reqTemperature :: rat
  reqMaxTokens :: int

record completion_response =
  respContent :: string
  respOutputTokens :: int

text \<open>Modelled from the spec: the runtime, its execution context, the workspace, the resolver
  and the LLM providers are not among the sources. The record holds what the executor reads
  from them. \<open>input\<close> is \<open>ctx.Variables["input"]\<close>. \<open>Complete\<close> is the provider call:
  its answer is indexed by the provider, by the place of the call (step, round, sample
  index) and by the request, \<open>Inl\<close> carrying the text of the provider's error.
  \<open>rangeOrder\<close> gives, for a step index, the orders in which the \<open>range\<close> statements
  executed during that step visit the tally.
  \<open>durationText\<close> is the rendering of the elapsed time in the completion event.\<close>

record env =
  input :: goval
  GetEntityByName :: "string \<Rightarrow> string \<Rightarrow> plain_entity option"
  GetAgent :: "string \<Rightarrow> error + plain_entity"
  Resolve :: "val \<Rightarrow> error + plain_entity option"
  getAgentSystemPrompt :: "plain_entity \<Rightarrow> error + string"
  getAgentModel :: "plain_entity \<Rightarrow> string"
  getProviderForModel :: "string \<Rightarrow> error + string"
  Complete :: "string \<Rightarrow> int \<Rightarrow> int \<Rightarrow> int \<Rightarrow> completion_request
                 \<Rightarrow> string + completion_response"
  rangeOrder :: "int \<Rightarrow> visit_order"
  durationText :: string

subsection \<open>Strategy, agent, generated microsteps and the prompt\<close>

definition resolveStrategy :: "env \<Rightarrow> mdap_pipeline_entity \<Rightarrow> string" where
  "resolveStrategy E pipeline =
     (case plProps pipeline ''strategy'' of
        None \<Rightarrow> []
      | Some (StringValue v) \<Rightarrow> v
      | Some (ReferenceValue t n) \<Rightarrow>
          (if t = ''file''
           then (case GetEntityByName E ''file'' n of
                   None \<Rightarrow> []
                 | Some fileEntity \<Rightarrow>
                     (case entProps fileEntity ''contents'' of
                        Some (StringValue sv) \<Rightarrow> sv
                      | _ \<Rightarrow> []))
           else [])
      | Some _ \<Rightarrow> [])"

definition resolveMicrostepAgent :: "env \<Rightarrow> microstep_entity \<Rightarrow> error + plain_entity" where
  "resolveMicrostepAgent E step =
     (case msProps step ''use'' of
        None \<Rightarrow> Inl (NoUseProperty (msName step))
      | Some (ReferenceValue t n) \<Rightarrow>
          (if t \<noteq> ''agent'' then Inl (ExpectedAgentReference t) else GetAgent E n)
      | Some (StringValue v) \<Rightarrow> GetAgent E v
      | Some useProp \<Rightarrow>
          (case Resolve E useProp of
             Inl err \<Rightarrow> Inl err
           | Inr None \<Rightarrow> Inl CannotResolveAgent
           | Inr (Some agent) \<Rightarrow>
               (if entType agent = ''agent'' then Inr agent else Inl CannotResolveAgent)))"

definition generateMicrostep :: "int \<Rightarrow> goval \<Rightarrow> string \<Rightarrow> microstep_entity" where
  "generateMicrostep stepIdx state strategy =
     \<lparr> msName = ''step-'' @ showInt stepIdx,
       msProps = [''prompt'' \<mapsto> StringValue ''Determine and execute the next move.''] \<rparr>"

text \<open>\<open>fmt.Sprintf("%v", state)\<close>.\<close>

definition renderState :: "goval \<Rightarrow> string" where
  "renderState v =
     (case v of
        GoNil \<Rightarrow> ''<nil>''
      | GoString s \<Rightarrow> s
      | GoEmptyMap \<Rightarrow> ''map[]''
      | GoOther s \<Rightarrow> s)"

definition outputFormatBlock :: string where
  "outputFormatBlock =
     ''## Required Output Format\<newline>Respond with exactly:\<newline>move = <your move>\<newline>next_state = <resulting state>\<newline>\<newline>No explanations, no extra text.''"

definition buildMDAPPrompt :: "microstep_entity \<Rightarrow> goval \<Rightarrow> string \<Rightarrow> string \<Rightarrow> string" where
  "buildMDAPPrompt step state lastAction strategy =
     (let parts0 = (if strategy \<noteq> [] then [''## Strategy\<newline>'' @ strategy] else []);
          parts1 = parts0 @ [''## Current State\<newline>'' @ renderState state];
          parts2 = (if lastAction \<noteq> [] then parts1 @ [''## Previous Action\<newline>'' @ lastAction]
                    else parts1);
          parts3 = (case msProps step ''prompt'' of
                      Some (StringValue sv) \<Rightarrow> parts2 @ [''## Task\<newline>'' @ sv]
                    | _ \<Rightarrow> parts2);
          parts4 = parts3 @ [outputFormatBlock]
      in Join parts4 ''\<newline>\<newline>'')"

definition criticalInstructions :: string where
  "criticalInstructions =
     ''\<newline>\<newline>CRITICAL INSTRUCTIONS:\<newline>1. Output EXACTLY the required format - no explanations, no extra text\<newline>2. Your response must be parseable - format errors will be rejected\<newline>3. Think carefully before answering - wrong format indicates confusion\<newline>4. Keep your response concise - overly long responses will be rejected''"

subsection \<open>The parallel sampler\<close>

definition sampleAt ::
  "env \<Rightarrow> string \<Rightarrow> string \<Rightarrow> string \<Rightarrow> string \<Rightarrow> mdap_config \<Rightarrow> int \<Rightarrow> int \<Rightarrow> int \<Rightarrow> mdap_sample"
where
  "sampleAt E provider model systemPrompt prompt config stepIdx rnd idx =
     (let temperature = (if rnd = 0 \<and> idx = 0 then TemperatureFirst config
                         else TemperatureSubsequent config);
          req = \<lparr> reqModel = model,
                  reqSystemPrompt = systemPrompt,
                  reqMessages = [(''user'', prompt)],
                  reqTemperature = temperature,
                  reqMaxTokens = MaxOutputTokens config \<rparr>
      in case Complete E provider stepIdx rnd idx req of
           Inl err \<Rightarrow>
             \<lparr> Content = [], Action = [], NextState = GoNil, TokenCount = 0,
               RedFlagged = True, RedFlagReason = ''LLM error: '' @ err \<rparr>
         | Inr resp \<Rightarrow>
             (let parsed = parseHanoiResponse (respContent resp)
              in \<lparr> Content = respContent resp, Action = fst parsed, NextState = snd parsed,
                   TokenCount = respOutputTokens resp,
                   RedFlagged = False, RedFlagReason = [] \<rparr>))"

text \<open>\<open>parallelSample\<close>: one goroutine per index, each writing its own slot; after
  \<open>wg.Wait()\<close> the slice holds the samples in index order. \<open>make\<close> panics on a negative
  length. The step index is not an argument of the Go function: it only names the place of
  the provider calls.\<close>

definition parallelSample ::
  "env \<Rightarrow> string \<Rightarrow> string \<Rightarrow> string \<Rightarrow> string \<Rightarrow> mdap_config \<Rightarrow> int \<Rightarrow> int
     \<Rightarrow> fault + mdap_sample list"
where
  "parallelSample E provider model systemPrompt prompt config stepIdx rnd =
     (let numSamples = (if ParallelSamples config \<le> 0 then K config else ParallelSamples config)
      in if numSamples < 0 then Inl (MakeSliceLenOutOfRange numSamples)
         else Inr (map (sampleAt E provider model systemPrompt prompt config stepIdx rnd)
                       [0..numSamples - 1]))"

subsection \<open>The voting loop\<close>

record vote_state =
  votes :: "(string \<times> int) list"
  samples :: "string \<rightharpoonup> mdap_sample"
  totalSamples :: int
  rejectedSamples :: int

text \<open>\<open>votes[action]++\<close>: a key that is absent reads as 0.\<close>

fun incVote :: "string \<Rightarrow> (string \<times> int) list \<Rightarrow> (string \<times> int) list" where
  "incVote a [] = [(a, 1)]"
| "incVote a ((b, v) # kvs) = (if a = b then (b, v + 1) # kvs else (b, v) # incVote a kvs)"

datatype vote_outcome =
    Committed string mdap_sample vote_state
  | Undecided vote_state
  | Faulted fault

text \<open>\<open>winner := r.getWinner(votes); winnerSample := samples[winner]\<close>, then the reads of
  \<open>winnerSample.Content\<close> and \<open>winnerSample.NextState\<close>, which panic on a nil pointer.\<close>

definition declareWinner :: "visit_order \<Rightarrow> vote_state \<Rightarrow> vote_outcome" where
  "declareWinner ord vs =
     (let winner = getWinner (ord RangeGetWinner (votes vs))
      in case samples vs winner of
           None \<Rightarrow> Faulted NilDereference
         | Some winnerSample \<Rightarrow> Committed winner winnerSample vs)"

definition voteKey :: "mdap_sample \<Rightarrow> string" where
  "voteKey sample = (if Action sample = [] then Content sample else Action sample)"

definition castVote :: "mdap_sample \<Rightarrow> vote_state \<Rightarrow> vote_state" where
  "castVote sample vs =
     vs\<lparr> votes := incVote (voteKey sample) (votes vs),
         samples := (samples vs)(voteKey sample \<mapsto> sample) \<rparr>"

text \<open>The inner loop, \<open>for _, sample := range roundSamples\<close>; \<open>ord\<close> gives the orders in
  which the arbiter visits the tally during the step.\<close>

fun tallySamples ::
  "visit_order \<Rightarrow> mdap_config \<Rightarrow> vote_state \<Rightarrow> mdap_sample list \<Rightarrow> vote_outcome" where
  "tallySamples ord config vs [] = Undecided vs"
| "tallySamples ord config vs (sample # rest) =
     (if fst (isRedFlagged sample config)
      then tallySamples ord config (vs\<lparr>rejectedSamples := rejectedSamples vs + 1\<rparr>) rest
      else (let vs' = castVote (snd (isRedFlagged sample config)) vs
            in if VotingStrategy config = ''first-to-ahead-by-k''
                  \<and> hasWinner (ord RangeHasWinner (votes vs')) (K config)
               then declareWinner ord vs'
               else tallySamples ord config vs' rest))"

text \<open>The outer loop, \<open>for round := 0; round < config.MaxRetries; round++\<close>, over the list of
  its round numbers; \<open>sampler rnd\<close> is the call of \<open>parallelSample\<close> for round \<open>rnd\<close>.\<close>

fun votingRounds ::
  "visit_order \<Rightarrow> mdap_config \<Rightarrow> (int \<Rightarrow> fault + mdap_sample list) \<Rightarrow> vote_state \<Rightarrow> int list
     \<Rightarrow> vote_outcome"
where
  "votingRounds ord config sampler vs [] = Undecided vs"
| "votingRounds ord config sampler vs (rnd # rounds) =
     (case sampler rnd of
        Inl f \<Rightarrow> Faulted f
      | Inr roundSamples \<Rightarrow>
          (case tallySamples ord config
                  (vs\<lparr>totalSamples := totalSamples vs + int (length roundSamples)\<rparr>)
                  roundSamples of
             Undecided vs' \<Rightarrow>
               (if VotingStrategy config = ''majority'' \<and> length (votes vs') > 0
                   \<and> totalSamples vs' \<ge> wrap64 (K config * 3)
                then declareWinner ord vs'
                else votingRounds ord config sampler vs' rounds)
           | out \<Rightarrow> out))"

definition initialVotes :: vote_state where
  "initialVotes = \<lparr> votes = [], samples = Map.empty, totalSamples = 0, rejectedSamples = 0 \<rparr>"

text \<open>The whole voting loop of a step, from the empty tally.\<close>

definition votingLoop ::
  "visit_order \<Rightarrow> mdap_config \<Rightarrow> (int \<Rightarrow> fault + mdap_sample list) \<Rightarrow> vote_outcome" where
  "votingLoop ord config sampler =
     votingRounds ord config sampler initialVotes [0..MaxRetries config - 1]"

subsection \<open>Results and progress events\<close>

text \<open>\<open>m[k] = v\<close> on a Go map that is kept as an association list: the entry of \<open>k\<close> is
  replaced where it stands, or added at the end.\<close>

fun assign :: "'k \<Rightarrow> 'v \<Rightarrow> ('k \<times> 'v) list \<Rightarrow> ('k \<times> 'v) list" where
  "assign k v [] = [(k, v)]"
| "assign k v ((k', v') # kvs) = (if k = k' then (k, v) # kvs else (k', v') # assign k v kvs)"

text \<open>Modelled from the spec: the declarations of \<open>StepResult\<close>, \<open>ExecutionResult\<close> and
  \<open>ProgressEvent\<close> are not among the sources. The records hold the fields that the
  executor assigns, without the wall-clock ones and without the message text of an event.\<close>

record step_result =
  srName :: string
  srSuccess :: bool
  srOutput :: goval
  srError :: "error option"

record execution_result =
  Success :: bool
  Output :: goval
  Error :: "error option"
  StepResults :: "(string \<times> step_result) list"
  Metadata :: "(string \<times> string) list"

record mdap_checkpoint =
  StepIndex :: int
  State :: goval

record mdap_execution_result =
  ExecutionResult :: execution_result
  TotalMicrosteps :: int
  TotalSamples :: int
  RejectedSamples :: int
  VotingRounds :: int
  Checkpoints :: "mdap_checkpoint list"

datatype progress_type =
  ProgressTypeStart | ProgressTypeStep | ProgressTypeError | ProgressTypeComplete

record progress_event =
  evType :: progress_type
  evStep :: string
  evProgress :: int
  evMetadata :: "(string \<times> string) list"

text \<open>Go's \<open>/\<close> and \<open>%\<close> on integers truncate towards zero.\<close>

definition goDiv :: "int \<Rightarrow> int \<Rightarrow> int" where
  "goDiv a b = sgn a * sgn b * (\<bar>a\<bar> div \<bar>b\<bar>)"

definition goMod :: "int \<Rightarrow> int \<Rightarrow> int" where
  "goMod a b = a - b * goDiv a b"

subsection \<open>One microstep\<close>

text \<open>\<open>executeMicrostepWithVoting\<close> returns the events it emits and either a fault or the four
  results of the Go function: the step result, the winning action, the new state and the
  error. The division that computes the progress panics when \<open>totalSteps\<close> is 0.\<close>

definition failStep ::
  "step_result \<Rightarrow> error \<Rightarrow> step_result \<times> string \<times> goval \<times> error option" where
  "failStep stepResult err = (stepResult\<lparr>srError := Some err\<rparr>, [], GoNil, Some err)"

definition executeMicrostepWithVoting ::
  "env \<Rightarrow> microstep_entity \<Rightarrow> mdap_config \<Rightarrow> goval \<Rightarrow> string \<Rightarrow> string \<Rightarrow> int \<Rightarrow> int
     \<Rightarrow> progress_event list \<times> (fault + step_result \<times> string \<times> goval \<times> error option)"
where
  "executeMicrostepWithVoting E step config currentState lastAction strategy stepIdx totalSteps =
     (if totalSteps = 0 then ([], Inl IntegerDivideByZero)
      else
        (let stepResult = \<lparr> srName = msName step, srSuccess = False, srOutput = GoNil,
                             srError = None \<rparr>;
             progress = goDiv (stepIdx * 100) totalSteps;
             evs = (if goMod stepIdx 100 = 0 \<or> stepIdx < 10
                    then [\<lparr> evType = ProgressTypeStep, evStep = msName step,
                             evProgress = progress, evMetadata = [] \<rparr>]
                    else [])
         in case resolveMicrostepAgent E step of
              Inl err \<Rightarrow> (evs, Inr (failStep stepResult err))
            | Inr agent \<Rightarrow>
                (let prompt = buildMDAPPrompt step currentState lastAction strategy
                 in case getAgentSystemPrompt E agent of
                      Inl err \<Rightarrow> (evs, Inr (failStep stepResult err))
                    | Inr agentPrompt \<Rightarrow>
                        (let systemPrompt = agentPrompt @ criticalInstructions;
                             model = getAgentModel E agent
                         in case getProviderForModel E model of
                              Inl err \<Rightarrow> (evs, Inr (failStep stepResult err))
                            | Inr provider \<Rightarrow>
                                (case votingLoop (rangeOrder E stepIdx) config
                                        (parallelSample E provider model systemPrompt prompt
                                           config stepIdx) of
                                   Faulted f \<Rightarrow> (evs, Inl f)
                                 | Committed winner winnerSample vs \<Rightarrow>
                                     (evs, Inr (stepResult\<lparr> srSuccess := True,
                                                  srOutput := GoString (Content winnerSample) \<rparr>,
                                                winner, NextState winnerSample, None))
                                 | Undecided vs \<Rightarrow>
                                     (evs, Inr (failStep stepResult
                                                  (NoConsensus (totalSamples vs)
                                                     (rejectedSamples vs)))))))))"

subsection \<open>The step loop\<close>

record loop_state =
  result :: mdap_execution_result
  state :: goval
  lastAction :: string
  events :: "progress_event list"
  stepOutputs :: "(string \<times> goval) list"

datatype loop_exit = Completed | Aborted error | Panicked fault

definition takeCheckpoint :: "mdap_config \<Rightarrow> int \<Rightarrow> loop_state \<Rightarrow> loop_state" where
  "takeCheckpoint config stepIdx ls =
     (if CheckpointInterval config > 0 \<and> stepIdx > 0
         \<and> goMod stepIdx (CheckpointInterval config) = 0
      then ls\<lparr> result := (result ls)\<lparr> Checkpoints := Checkpoints (result ls)
                            @ [\<lparr> StepIndex = stepIdx, State = state ls \<rparr>] \<rparr>,
               events := events ls
                 @ [\<lparr> evType = ProgressTypeStep, evStep = ''checkpoint-'' @ showInt stepIdx,
                      evProgress = 0, evMetadata = [] \<rparr>] \<rparr>
      else ls)"

text \<open>"Get or generate the microstep": the generated one when the pipeline is dynamic, else
  \<open>pipeline.Microsteps[stepIdx]\<close>, an index expression that panics out of range.\<close>

definition microstepAt ::
  "mdap_pipeline_entity \<Rightarrow> bool \<Rightarrow> int \<Rightarrow> goval \<Rightarrow> string \<Rightarrow> fault + microstep_entity" where
  "microstepAt pipeline isDynamic stepIdx currentState strategy =
     (if isDynamic then Inr (generateMicrostep stepIdx currentState strategy)
      else if 0 \<le> stepIdx \<and> stepIdx < int (length (Microsteps pipeline))
      then Inr (Microsteps pipeline ! nat stepIdx)
      else Inl (IndexOutOfRange stepIdx (int (length (Microsteps pipeline)))))"

text \<open>The body of the step loop; \<open>None\<close> in the second component lets the loop go on.\<close>

definition stepBody ::
  "env \<Rightarrow> mdap_pipeline_entity \<Rightarrow> mdap_config \<Rightarrow> string \<Rightarrow> bool \<Rightarrow> int \<Rightarrow> int \<Rightarrow> loop_state
     \<Rightarrow> loop_state \<times> loop_exit option"
where
  "stepBody E pipeline config strategy isDynamic totalSteps stepIdx ls0 =
     (let ls = takeCheckpoint config stepIdx ls0
      in case microstepAt pipeline isDynamic stepIdx (state ls) strategy of
           Inl f \<Rightarrow> (ls, Some (Panicked f))
         | Inr microstep \<Rightarrow>
             (case executeMicrostepWithVoting E microstep config (state ls) (lastAction ls)
                     strategy stepIdx totalSteps of
                (evs, Inl f) \<Rightarrow> (ls\<lparr>events := events ls @ evs\<rparr>, Some (Panicked f))
              | (evs, Inr (stepResult, action, newState, err)) \<Rightarrow>
                  (let r = result ls;
                       x = ExecutionResult r;
                       x1 = x\<lparr> StepResults := assign (msName microstep) stepResult (StepResults x) \<rparr>;
                       r1 = r\<lparr> TotalMicrosteps := TotalMicrosteps r + 1, ExecutionResult := x1 \<rparr>;
                       ls1 = ls\<lparr> result := r1, events := events ls @ evs \<rparr>
                   in case err of
                        Some e \<Rightarrow>
                          (ls1\<lparr> result := r1\<lparr> ExecutionResult :=
                                    x1\<lparr> Error := Some (MicrostepFailed (msName microstep) e) \<rparr> \<rparr>,
                                events := events ls1
                                  @ [\<lparr> evType = ProgressTypeError, evStep = msName microstep,
                                       evProgress = 0, evMetadata = [] \<rparr>] \<rparr>,
                           Some (Aborted (MicrostepFailed (msName microstep) e)))
                      | None \<Rightarrow>
                          (ls1\<lparr> state := newState, lastAction := action,
                                stepOutputs := assign (msName microstep) (srOutput stepResult)
                                                 (stepOutputs ls1) \<rparr>,
                           None))))"

fun stepLoop ::
  "env \<Rightarrow> mdap_pipeline_entity \<Rightarrow> mdap_config \<Rightarrow> string \<Rightarrow> bool \<Rightarrow> int \<Rightarrow> loop_state
     \<Rightarrow> int list \<Rightarrow> loop_state \<times> loop_exit"
where
  "stepLoop E pipeline config strategy isDynamic totalSteps ls [] = (ls, Completed)"
| "stepLoop E pipeline config strategy isDynamic totalSteps ls (stepIdx # rest) =
     (case stepBody E pipeline config strategy isDynamic totalSteps stepIdx ls of
        (ls', Some ex) \<Rightarrow> (ls', ex)
      | (ls', None) \<Rightarrow> stepLoop E pipeline config strategy isDynamic totalSteps ls' rest)"

definition getTotalSteps :: "mdap_pipeline_entity \<Rightarrow> int" where
  "getTotalSteps pipeline =
     (case plProps pipeline ''total_steps'' of
        Some (NumberValue numVal) \<Rightarrow> goInt numVal
      | _ \<Rightarrow> int (length (Microsteps pipeline)))"

definition initialLoopState :: "env \<Rightarrow> loop_state" where
  "initialLoopState E =
     \<lparr> result = \<lparr> ExecutionResult = \<lparr> Success = False, Output = GoNil, Error = None,
                                       StepResults = [], Metadata = [] \<rparr>,
                  TotalMicrosteps = 0, TotalSamples = 0, RejectedSamples = 0,
                  VotingRounds = 0, Checkpoints = [] \<rparr>,
       state = (if input E = GoNil then GoEmptyMap else input E),
       lastAction = [],
       events = [\<lparr> evType = ProgressTypeStart, evStep = [], evProgress = 0,
                   evMetadata = [] \<rparr>],
       stepOutputs = [] \<rparr>"

definition complete :: "env \<Rightarrow> loop_state \<Rightarrow> loop_state" where
  "complete E ls =
     (let r = result ls;
          r1 = r\<lparr> ExecutionResult := (ExecutionResult r)\<lparr> Success := True, Output := state ls \<rparr> \<rparr>
      in ls\<lparr> result := r1,
             events := events ls
               @ [\<lparr> evType = ProgressTypeComplete, evStep = [], evProgress = 100,
                    evMetadata = [(''total_steps'', showInt (TotalMicrosteps r1)),
                                  (''total_samples'', showInt (TotalSamples r1)),
                                  (''rejected_samples'', showInt (RejectedSamples r1)),
                                  (''duration'', durationText E)] \<rparr>] \<rparr>)"

text \<open>\<open>runMDAP\<close> is \<open>executeMDAPPipeline\<close> up to its return statement: the local variables
  (\<open>result\<close>, \<open>state\<close>, \<open>lastAction\<close>), the events emitted, and the way the function is
  left. The argument is the entity after the type assertion to an MDAP pipeline.\<close>

definition runMDAP :: "env \<Rightarrow> mdap_pipeline_entity \<Rightarrow> loop_state \<times> loop_exit" where
  "runMDAP E pipeline =
     (let config = loadMDAPConfig pipeline;
          strategy = resolveStrategy E pipeline;
          totalSteps = getTotalSteps pipeline;
          isDynamic = (length (Microsteps pipeline) = 0 \<and> totalSteps > 0)
      in case stepLoop E pipeline config strategy isDynamic totalSteps (initialLoopState E)
                [0..totalSteps - 1] of
           (ls, Completed) \<Rightarrow> (complete E ls, Completed)
         | (ls, ex) \<Rightarrow> (ls, ex))"

text \<open>What the caller receives: \<open>result.ExecutionResult\<close> and the error, or the panic.\<close>

definition executeMDAPPipeline ::
  "env \<Rightarrow> mdap_pipeline_entity \<Rightarrow> fault + execution_result \<times> error option" where
  "executeMDAPPipeline E pipeline =
     (case runMDAP E pipeline of
        (ls, Completed) \<Rightarrow> Inr (ExecutionResult (result ls), None)
      | (ls, Aborted e) \<Rightarrow>
          Inr (ExecutionResult (result ls), Error (ExecutionResult (result ls)))
      | (ls, Panicked f) \<Rightarrow> Inl f)"

subsection \<open>Concrete inputs\<close>

text \<open>A workspace in which every agent resolves, the system prompt and the provider are
  found, the provider's answer at each call is given by \<open>answers\<close>, and every \<open>range\<close>
  statement visits the tally in the order \<open>order\<close>.\<close>

definition stubEnv ::
  "(int \<Rightarrow> int \<Rightarrow> int \<Rightarrow> string + completion_response)
     \<Rightarrow> ((string \<times> int) list \<Rightarrow> (string \<times> int) list) \<Rightarrow> env" where
  "stubEnv answers order =
     \<lparr> input = GoString ''S0'',
       GetEntityByName = (\<lambda>t n. None),
       GetAgent = (\<lambda>n. Inr \<lparr> entType = ''agent'', entName = n, entProps = Map.empty \<rparr>),
       Resolve = (\<lambda>v. Inr None),
       getAgentSystemPrompt = (\<lambda>a. Inr ''Solve the puzzle.''),
       getAgentModel = (\<lambda>a. ''model''),
       getProviderForModel = (\<lambda>m. Inr ''provider''),
       Complete = (\<lambda>p stepIdx rnd idx req. answers stepIdx rnd idx),
       rangeOrder = (\<lambda>stepIdx site. order),
       durationText = ''1s'' \<rparr>"

text \<open>A well-formed answer of ten tokens: a move line and a next-state line.\<close>

definition answer :: "string \<Rightarrow> string \<Rightarrow> string + completion_response" where
  "answer a s =
     Inr \<lparr> respContent = ''move = '' @ a @ ''\<newline>next_state = '' @ s, respOutputTokens = 10 \<rparr>"

definition moveStep :: microstep_entity where
  "moveStep = \<lparr> msName = ''move'', msProps = [''use'' \<mapsto> ReferenceValue ''agent'' ''solver''] \<rparr>"

definition verifyStep :: microstep_entity where
  "verifyStep = \<lparr> msName = ''verify'', msProps = [''use'' \<mapsto> StringValue ''solver''] \<rparr>"


definition pipelineOf ::
  "microstep_entity list \<Rightarrow> (string \<times> val) list \<Rightarrow> (string \<times> val) list \<Rightarrow> mdap_pipeline_entity"
where
  "pipelineOf ms ps cfg =
     \<lparr> plName = ''solve'', plProps = map_of ps, Microsteps = ms, Config = Some (map_of cfg) \<rparr>"

text \<open>The effective configuration with the given strategy, margin, round size and checkpoint
  interval, the other fields at their defaults.\<close>

definition configOf :: "string \<Rightarrow> int \<Rightarrow> int \<Rightarrow> int \<Rightarrow> mdap_config" where
  "configOf strategy k parallel interval =
     \<lparr> VotingStrategy = strategy, K = k, ParallelSamples = parallel, TemperatureFirst = 0,
       TemperatureSubsequent = 1 / 10, MaxOutputTokens = 750, RequireFormat = True,
       CheckpointInterval = interval, MaxRetries = 100, OutputPattern = None \<rparr>"

text \<open>The sample that the sampler builds from a provider answer; \<open>voteSample a s\<close> is the one
  built from \<open>answer a s\<close>, \<open>failedSample err\<close> the one built from a provider error.\<close>

definition sampleOf :: "string + completion_response \<Rightarrow> mdap_sample" where
  "sampleOf r =
     (case r of
        Inl err \<Rightarrow> \<lparr> Content = [], Action = [], NextState = GoNil, TokenCount = 0,
                     RedFlagged = True, RedFlagReason = ''LLM error: '' @ err \<rparr>
      | Inr resp \<Rightarrow> \<lparr> Content = respContent resp,
                      Action = fst (parseHanoiResponse (respContent resp)),
                      NextState = snd (parseHanoiResponse (respContent resp)),
                      TokenCount = respOutputTokens resp,
                      RedFlagged = False, RedFlagReason = [] \<rparr>)"

definition voteSample :: "string \<Rightarrow> string \<Rightarrow> mdap_sample" where
  "voteSample a s =
     \<lparr> Content = ''move = '' @ a @ ''\<newline>next_state = '' @ s, Action = a,
       NextState = GoString s, TokenCount = 10, RedFlagged = False, RedFlagReason = [] \<rparr>"

definition failedSample :: "string \<Rightarrow> mdap_sample" where
  "failedSample err =
     \<lparr> Content = [], Action = [], NextState = GoNil, TokenCount = 0, RedFlagged = True,
       RedFlagReason = ''LLM error: '' @ err \<rparr>"

text \<open>The progress events that a step with the given name emits before it votes.\<close>

definition stepEvents :: "string \<Rightarrow> int \<Rightarrow> int \<Rightarrow> progress_event list" where
  "stepEvents name stepIdx totalSteps =
     (if goMod stepIdx 100 = 0 \<or> stepIdx < 10
      then [\<lparr> evType = ProgressTypeStep, evStep = name,
               evProgress = goDiv (stepIdx * 100) totalSteps, evMetadata = [] \<rparr>]
      else [])"

subsection \<open>Notions of the specification used in the statements\<close>

text \<open>An ordered list of rules, each a test and the reason it records: the first rule whose
  test holds decides, and a sample that no rule matches passes unchanged.\<close>

fun firstMatch :: "(('a \<Rightarrow> bool) \<times> 'b) list \<Rightarrow> 'a \<Rightarrow> 'b option" where
  "firstMatch [] s = None"
| "firstMatch ((test, reason) # rules) s = (if test s then Some reason else firstMatch rules s)"

definition orderedFilter ::
  "((mdap_sample \<Rightarrow> bool) \<times> (mdap_sample \<Rightarrow> string)) list \<Rightarrow> mdap_sample
     \<Rightarrow> bool \<times> mdap_sample" where
  "orderedFilter rules s =
     (case firstMatch rules s of
        None \<Rightarrow> (False, s)
      | Some reason \<Rightarrow> (True, s\<lparr>RedFlagged := True, RedFlagReason := reason s\<rparr>))"

text \<open>The rules of the red-flag filter in their order: the sample is flagged already (the
  reason it carries stays), the token count exceeds a positive \<open>max_output_tokens\<close>, a
  required and declared output pattern does not match, the action is empty.\<close>

definition filterRules ::
  "mdap_config \<Rightarrow> ((mdap_sample \<Rightarrow> bool) \<times> (mdap_sample \<Rightarrow> string)) list" where
  "filterRules config =
     [ (RedFlagged, RedFlagReason),
       (\<lambda>s. MaxOutputTokens config > 0 \<and> TokenCount s > MaxOutputTokens config,
        \<lambda>s. ''response too long: '' @ showInt (TokenCount s) @ '' tokens > ''
              @ showInt (MaxOutputTokens config)),
       (\<lambda>s. RequireFormat config
              \<and> (case OutputPattern config of None \<Rightarrow> False | Some m \<Rightarrow> \<not> m (Content s)),
        \<lambda>s. ''response does not match required format''),
       (\<lambda>s. Action s = [], \<lambda>s. ''could not extract action from response'') ]"

text \<open>Modelled from the spec: the red-flag predicates that a microstep declares under
  \<open>red_flags\<close> (a regex that matches, a forbidden substring, a field outside an allowed
  enumeration). No function of the executor reads them; the definitions follow the words
  of the specification.\<close>

datatype red_flag_rule =
    RegexRule "string \<Rightarrow> bool"
  | ContainsRule string
  | NotInRule "string list"

fun Contains :: "string \<Rightarrow> string \<Rightarrow> bool" where
  "Contains [] sub = (sub = [])"
| "Contains (c # cs) sub = (HasPrefix (c # cs) sub \<or> Contains cs sub)"

fun ruleFires :: "red_flag_rule \<Rightarrow> mdap_sample \<Rightarrow> bool" where
  "ruleFires (RegexRule matches) s = matches (Content s)"
| "ruleFires (ContainsRule sub) s = Contains (Content s) sub"
| "ruleFires (NotInRule allowed) s = (Action s \<notin> set allowed)"

text \<open>The samples of a list that the red-flag filter lets through.\<close>

definition acceptedIn :: "mdap_config \<Rightarrow> mdap_sample list \<Rightarrow> mdap_sample list" where
  "acceptedIn config xs = filter (\<lambda>s. \<not> fst (isRedFlagged s config)) xs"

text \<open>The tally of a step after the samples \<open>seen\<close> have been processed, in their order,
  without a winner being declared: a rejected sample is counted as rejected, any other one
  casts its vote, and all of them are counted as drawn.\<close>

definition tallyStep :: "mdap_config \<Rightarrow> mdap_sample \<Rightarrow> vote_state \<Rightarrow> vote_state" where
  "tallyStep config s vs =
     (if fst (isRedFlagged s config) then vs\<lparr>rejectedSamples := rejectedSamples vs + 1\<rparr>
      else castVote (snd (isRedFlagged s config)) vs)"

definition tallyOf :: "mdap_config \<Rightarrow> mdap_sample list \<Rightarrow> vote_state" where
  "tallyOf config seen =
     (fold (tallyStep config) seen initialVotes)\<lparr>totalSamples := int (length seen)\<rparr>"

text \<open>The majority rule over the rounds of a step, \<open>seen\<close> being the samples of the rounds
  before: the samples drawn up to the end of the first round at which at least one sample
  has been accepted and the number of samples drawn, rejected ones included, has reached
  the 64-bit product \<open>3 * k\<close>; \<open>None\<close> when no round gets there.\<close>

fun majorityRounds ::
  "mdap_config \<Rightarrow> mdap_sample list \<Rightarrow> mdap_sample list list \<Rightarrow> mdap_sample list option" where
  "majorityRounds config seen [] = None"
| "majorityRounds config seen (r # rs) =
     (if acceptedIn config (seen @ r) \<noteq> [] \<and> int (length (seen @ r)) \<ge> wrap64 (K config * 3)
      then Some (seen @ r)
      else majorityRounds config (seen @ r) rs)"

text \<open>A provider whose first answer of every round is the move \<open>A\<close> and whose other
  answers are errors.\<close>

definition oneVoteAnswers :: "int \<Rightarrow> int \<Rightarrow> int \<Rightarrow> string + completion_response" where
  "oneVoteAnswers stepIdx rnd idx = (if idx = 0 then answer ''A'' ''S1'' else Inl ''rate limit'')"

text \<open>The samples that the sampler delivers in a round (none when it panics), and the
  samples of all the rounds that the voting loop of a step may run, in the order in which
  the loop processes them.\<close>

definition drawnOf :: "(int \<Rightarrow> fault + mdap_sample list) \<Rightarrow> int \<Rightarrow> mdap_sample list" where
  "drawnOf sampler rnd = (case sampler rnd of Inl f \<Rightarrow> [] | Inr xs \<Rightarrow> xs)"

definition sampleStream :: "mdap_config \<Rightarrow> (int \<Rightarrow> fault + mdap_sample list) \<Rightarrow> mdap_sample list" where
  "sampleStream config sampler = concat (map (drawnOf sampler) [0..MaxRetries config - 1])"

text \<open>The sampler that \<open>executeMicrostepWithVoting\<close> hands to its voting loop: the call of
  \<open>parallelSample\<close> with the provider, model and prompts that the step resolves; \<open>None\<close> when
  the agent, its system prompt or the provider cannot be resolved.\<close>

definition stepSampler ::
  "env \<Rightarrow> microstep_entity \<Rightarrow> mdap_config \<Rightarrow> goval \<Rightarrow> string \<Rightarrow> string \<Rightarrow> int
     \<Rightarrow> (int \<Rightarrow> fault + mdap_sample list) option" where
  "stepSampler E step config currentState prevAction strategy stepIdx =
     (case resolveMicrostepAgent E step of
        Inl err \<Rightarrow> None
      | Inr agent \<Rightarrow>
          (case getAgentSystemPrompt E agent of
             Inl err \<Rightarrow> None
           | Inr agentPrompt \<Rightarrow>
               (case getProviderForModel E (getAgentModel E agent) of
                  Inl err \<Rightarrow> None
                | Inr provider \<Rightarrow>
                    Some (parallelSample E provider (getAgentModel E agent)
                            (agentPrompt @ criticalInstructions)
                            (buildMDAPPrompt step currentState prevAction strategy)
                            config stepIdx))))"

text \<open>A provider whose answers all vote for the move \<open>A\<close>; the first one of a round reports
  the next state \<open>S1\<close>, the others \<open>S2\<close>.\<close>

definition twoStates :: "int \<Rightarrow> int \<Rightarrow> int \<Rightarrow> string + completion_response" where
  "twoStates stepIdx rnd idx = (if idx = 0 then answer ''A'' ''S1'' else answer ''A'' ''S2'')"

text \<open>The non-rejected samples of a list that vote for the action \<open>a\<close>, in their order.\<close>

definition votesFor :: "mdap_config \<Rightarrow> string \<Rightarrow> mdap_sample list \<Rightarrow> mdap_sample list" where
  "votesFor config a seen = filter (\<lambda>s. voteKey s = a) (acceptedIn config seen)"

text \<open>The tally \<open>vs\<close> is the one of the processed samples \<open>seen\<close>: no action has two
  entries, and every action has as its count the number of votes cast for it and as its
  representative the last sample that voted for it.\<close>

definition represents :: "mdap_config \<Rightarrow> vote_state \<Rightarrow> mdap_sample list \<Rightarrow> bool" where
  "represents config vs seen =
     (distinct (map fst (votes vs))
      \<and> (\<forall>a. map_of (votes vs) a
            = (if votesFor config a seen = [] then None
               else Some (int (length (votesFor config a seen))))
          \<and> samples vs a
            = (if votesFor config a seen = [] then None
               else Some (last (votesFor config a seen)))))"

text \<open>A \<open>range\<close> statement of Go visits every entry of the map once; this is the property
  of the visiting orders that holds in every run.\<close>

definition visitsEachEntryOnce :: "visit_order \<Rightarrow> bool" where
  "visitsEachEntryOnce ord = (\<forall>site kvs. mset (ord site kvs) = mset kvs)"

text \<open>The count of an action in a tally (0 when it has no entry), and the highest count among
  the actions other than \<open>w\<close> (0 when there is none): the count of the runner-up when \<open>w\<close> is
  the winner.\<close>

definition voteCount :: "(string \<times> int) list \<Rightarrow> string \<Rightarrow> int" where
  "voteCount kvs a = (case map_of kvs a of None \<Rightarrow> 0 | Some c \<Rightarrow> c)"

definition runnerUp :: "(string \<times> int) list \<Rightarrow> string \<Rightarrow> int" where
  "runnerUp kvs w = fold max (map snd (filter (\<lambda>kv. fst kv \<noteq> w) kvs)) 0"



text \<open>A provider whose second answer of every round is the move \<open>B\<close>; its first answer of
  the first round is the move \<open>A\<close> with next state \<open>S1\<close>, and all its other answers are the
  move \<open>A\<close> with next state \<open>S2\<close>.\<close>

definition mixedAnswers :: "int \<Rightarrow> int \<Rightarrow> int \<Rightarrow> string + completion_response" where
  "mixedAnswers stepIdx rnd idx =
     (if idx = 1 then answer ''B'' ''S2''
      else if rnd = 0 \<and> idx = 0 then answer ''A'' ''S1''
      else answer ''A'' ''S2'')"

text \<open>A microstep that declares no agent.\<close>

definition looseStep :: microstep_entity where
  "looseStep = \<lparr> msName = ''check'', msProps = Map.empty \<rparr>"

section \<open>Properties\<close>

subsection \<open>Configuration resolver\<close>

lemmas setters =
  setVotingStrategy_def setK_def setParallelSamples_def setTemperatureFirst_def
  setTemperatureSubsequent_def setMaxOutputTokens_def setRequireFormat_def
  setCheckpointInterval_def

lemma setters_keep_MaxRetries:
  "MaxRetries (setVotingStrategy cfg c) = MaxRetries c"
  "MaxRetries (setK cfg c) = MaxRetries c"
  "MaxRetries (setParallelSamples cfg c) = MaxRetries c"
  "MaxRetries (setTemperatureFirst cfg c) = MaxRetries c"
  "MaxRetries (setTemperatureSubsequent cfg c) = MaxRetries c"
  "MaxRetries (setMaxOutputTokens cfg c) = MaxRetries c"
  "MaxRetries (setRequireFormat cfg c) = MaxRetries c"
  "MaxRetries (setCheckpointInterval cfg c) = MaxRetries c"
  by (simp_all add: setters Let_def split: option.split val.split)

lemma setters_keep_OutputPattern:
  "OutputPattern (setVotingStrategy cfg c) = OutputPattern c"
  "OutputPattern (setK cfg c) = OutputPattern c"
  "OutputPattern (setParallelSamples cfg c) = OutputPattern c"
  "OutputPattern (setTemperatureFirst cfg c) = OutputPattern c"
  "OutputPattern (setTemperatureSubsequent cfg c) = OutputPattern c"
  "OutputPattern (setMaxOutputTokens cfg c) = OutputPattern c"
  "OutputPattern (setRequireFormat cfg c) = OutputPattern c"
  "OutputPattern (setCheckpointInterval cfg c) = OutputPattern c"
  by (simp_all add: setters Let_def split: option.split val.split)

lemma setters_ignore_other_properties:
  "setVotingStrategy (cfg(''max_retries'' := x, ''output_pattern'' := y)) c = setVotingStrategy cfg c"
  "setK (cfg(''max_retries'' := x, ''output_pattern'' := y)) c = setK cfg c"
  "setParallelSamples (cfg(''max_retries'' := x, ''output_pattern'' := y)) c = setParallelSamples cfg c"
  "setTemperatureFirst (cfg(''max_retries'' := x, ''output_pattern'' := y)) c = setTemperatureFirst cfg c"
  "setTemperatureSubsequent (cfg(''max_retries'' := x, ''output_pattern'' := y)) c = setTemperatureSubsequent cfg c"
  "setMaxOutputTokens (cfg(''max_retries'' := x, ''output_pattern'' := y)) c = setMaxOutputTokens cfg c"
  "setRequireFormat (cfg(''max_retries'' := x, ''output_pattern'' := y)) c = setRequireFormat cfg c"
  "setCheckpointInterval (cfg(''max_retries'' := x, ''output_pattern'' := y)) c = setCheckpointInterval cfg c"
  by (simp_all add: setters)

text \<open>
  Claim C10. Whatever the properties of \<open>mdap_config\<close> are, the effective configuration has
  \<open>MaxRetries = 100\<close> and no \<open>OutputPattern\<close>, and the properties \<open>max_retries\<close> and
  \<open>output_pattern\<close> are not read: changing them in the bag in any way leaves the
  effective configuration unchanged.
\<close>

theorem loadMDAPConfig_max_retries_output_pattern_fixed:
  "MaxRetries (loadMDAPConfig pipeline) = 100
   \<and> OutputPattern (loadMDAPConfig pipeline) = None
   \<and> loadMDAPConfig
        (pipeline\<lparr>Config := Some (cfg(''max_retries'' := x, ''output_pattern'' := y))\<rparr>)
      = loadMDAPConfig (pipeline\<lparr>Config := Some cfg\<rparr>)"
proof -
  have "MaxRetries (loadMDAPConfig pipeline) = 100"
    by (cases "Config pipeline")
       (simp_all add: loadMDAPConfig_def setters_keep_MaxRetries DefaultMDAPConfig_def)
  moreover have "OutputPattern (loadMDAPConfig pipeline) = None"
    by (cases "Config pipeline")
       (simp_all add: loadMDAPConfig_def setters_keep_OutputPattern DefaultMDAPConfig_def)
  moreover have "loadMDAPConfig
        (pipeline\<lparr>Config := Some (cfg(''max_retries'' := x, ''output_pattern'' := y))\<rparr>)
      = loadMDAPConfig (pipeline\<lparr>Config := Some cfg\<rparr>)"
    by (simp add: loadMDAPConfig_def setters_ignore_other_properties)
  ultimately show ?thesis by simp
qed

text \<open>
  Claim C6 (the code departs from it). A pipeline whose \<open>mdap_config\<close> sets \<open>k\<close> to 5 and
  does not set \<open>parallel_samples\<close>: the effective \<open>K\<close> is 5 and the effective
  \<open>ParallelSamples\<close> is 3, the default, because the test \<open>ParallelSamples == 0\<close> that
  guards the copy of \<open>K\<close> never holds after \<open>DefaultMDAPConfig\<close>.
\<close>

theorem parallel_samples_not_defaulted_to_k:
  "K (loadMDAPConfig (pipelineOf [] [] [(''k'', NumberValue 5)])) = 5
   \<and> ParallelSamples (loadMDAPConfig (pipelineOf [] [] [(''k'', NumberValue 5)])) = 3"
  by (simp add: pipelineOf_def loadMDAPConfig_def setters DefaultMDAPConfig_def goInt_def)

subsection \<open>Evaluation of the concrete inputs\<close>

lemmas string_defs =
  HasPrefix_def TrimSpace_def asciiSpace_def space2_def space3_def parseHanoiResponse_def
  parseLine_def

lemmas config_defs = loadMDAPConfig_def setters DefaultMDAPConfig_def goInt_def

lemmas arbiter_defs =
  hasWinner_def scanVotes_def getWinner_def scanWinner_def wrap64_def declareWinner_def

lemmas show_defs = showInt_def showNat.simps digitChar_def

lemma configOf_fields [simp]:
  "VotingStrategy (configOf strategy k parallel interval) = strategy"
  "K (configOf strategy k parallel interval) = k"
  "ParallelSamples (configOf strategy k parallel interval) = parallel"
  "TemperatureFirst (configOf strategy k parallel interval) = 0"
  "TemperatureSubsequent (configOf strategy k parallel interval) = 1 / 10"
  "MaxOutputTokens (configOf strategy k parallel interval) = 750"
  "RequireFormat (configOf strategy k parallel interval) = True"
  "CheckpointInterval (configOf strategy k parallel interval) = interval"
  "MaxRetries (configOf strategy k parallel interval) = 100"
  "OutputPattern (configOf strategy k parallel interval) = None"
  by (simp_all add: configOf_def)

lemma voteSample_fields [simp]:
  "Content (voteSample a s) = ''move = '' @ a @ ''\<newline>next_state = '' @ s"
  "Action (voteSample a s) = a"
  "NextState (voteSample a s) = GoString s"
  "TokenCount (voteSample a s) = 10"
  "RedFlagged (voteSample a s) = False"
  by (simp_all add: voteSample_def)

lemma stub_fields [simp]:
  "input (stubEnv ans ord) = GoString ''S0''"
  "GetAgent (stubEnv ans ord) n
     = Inr \<lparr> entType = ''agent'', entName = n, entProps = Map.empty \<rparr>"
  "getAgentSystemPrompt (stubEnv ans ord) a = Inr ''Solve the puzzle.''"
  "getAgentModel (stubEnv ans ord) a = ''model''"
  "getProviderForModel (stubEnv ans ord) m = Inr ''provider''"
  "Complete (stubEnv ans ord) p stepIdx rnd idx req = ans stepIdx rnd idx"
  "rangeOrder (stubEnv ans ord) stepIdx = (\<lambda>site. ord)"
  "durationText (stubEnv ans ord) = ''1s''"
  by (simp_all add: stubEnv_def)

lemma pipelineOf_fields [simp]:
  "Microsteps (pipelineOf ms ps cfg) = ms"
  "plProps (pipelineOf ms ps cfg) = map_of ps"
  "Config (pipelineOf ms ps cfg) = Some (map_of cfg)"
  by (simp_all add: pipelineOf_def)

lemma moveStep_fields [simp]:
  "msName moveStep = ''move''"
  "msProps moveStep ''use'' = Some (ReferenceValue ''agent'' ''solver'')"
  "msProps moveStep ''prompt'' = None"
  by (simp_all add: moveStep_def)

lemma verifyStep_fields [simp]:
  "msName verifyStep = ''verify''"
  "msProps verifyStep ''use'' = Some (StringValue ''solver'')"
  "msProps verifyStep ''prompt'' = None"
  by (simp_all add: verifyStep_def)

lemma looseStep_fields [simp]:
  "msName looseStep = ''check''"
  "msProps looseStep k = None"
  by (simp_all add: looseStep_def)

lemma config_default:
  "loadMDAPConfig (pipelineOf ms ps []) = configOf ''first-to-ahead-by-k'' 3 3 1000"
  by (simp add: config_defs configOf_def)

lemma config_majority_k1:
  "loadMDAPConfig (pipelineOf ms ps [(''voting_strategy'', StringValue ''majority''),
                                    (''k'', NumberValue 1)])
   = configOf ''majority'' 1 3 1000"
  by (simp add: config_defs configOf_def)

lemma sampleAt_stub:
  "sampleAt (stubEnv ans ord) p m sp pr cfg stepIdx rnd idx = sampleOf (ans stepIdx rnd idx)"
  by (simp add: sampleAt_def sampleOf_def Let_def split: sum.split)

lemma sampleOf_vote [simp]:
  "sampleOf (answer ''A'' ''S1'') = voteSample ''A'' ''S1''"
  "sampleOf (answer ''A'' ''S2'') = voteSample ''A'' ''S2''"
  "sampleOf (answer ''B'' ''S2'') = voteSample ''B'' ''S2''"
  by (simp_all add: sampleOf_def answer_def voteSample_def string_defs)

lemma sampleOf_failed [simp]: "sampleOf (Inl err) = failedSample err"
  by (simp add: sampleOf_def failedSample_def)

lemma accept_vote:
  "a \<noteq> []
   \<Longrightarrow> isRedFlagged (voteSample a s) (configOf strategy k parallel interval)
       = (False, voteSample a s)"
  by (simp add: isRedFlagged_def)

lemma reject_failed: "isRedFlagged (failedSample err) cfg = (True, failedSample err)"
  by (simp add: isRedFlagged_def failedSample_def)

lemma voteKey_vote [simp]: "a \<noteq> [] \<Longrightarrow> voteKey (voteSample a s) = a"
  by (simp add: voteKey_def)

lemma votingLoop_unfold:
  "0 < MaxRetries config
   \<Longrightarrow> votingLoop E config sampler
       = votingRounds E config sampler initialVotes (0 # [1..MaxRetries config - 1])"
  by (simp add: votingLoop_def upto_rec1)

lemma votingLoop_unfold2:
  "1 < MaxRetries config
   \<Longrightarrow> votingLoop ord config sampler
       = votingRounds ord config sampler initialVotes (0 # 1 # [2..MaxRetries config - 1])"
  by (simp add: votingLoop_def upto_rec1)

lemma exec_stub_committed:
  assumes "n \<noteq> 0"
    and "msProps step ''use'' = Some (ReferenceValue ''agent'' a)
         \<or> msProps step ''use'' = Some (StringValue a)"
    and "votingLoop (\<lambda>site. ord) cfg
           (parallelSample (stubEnv ans ord) ''provider'' ''model''
              (''Solve the puzzle.'' @ criticalInstructions)
              (buildMDAPPrompt step st la strat) cfg i) = Committed w ws vs"
  shows "executeMicrostepWithVoting (stubEnv ans ord) step cfg st la strat i n
         = (stepEvents (msName step) i n,
            Inr (\<lparr> srName = msName step, srSuccess = True, srOutput = GoString (Content ws),
                    srError = None \<rparr>, w, NextState ws, None))"
  using assms
  by (auto simp: executeMicrostepWithVoting_def resolveMicrostepAgent_def stepEvents_def)

lemma exec_stub_undecided:
  assumes "n \<noteq> 0"
    and "msProps step ''use'' = Some (ReferenceValue ''agent'' a)
         \<or> msProps step ''use'' = Some (StringValue a)"
    and "votingLoop (\<lambda>site. ord) cfg
           (parallelSample (stubEnv ans ord) ''provider'' ''model''
              (''Solve the puzzle.'' @ criticalInstructions)
              (buildMDAPPrompt step st la strat) cfg i) = Undecided vs"
  shows "executeMicrostepWithVoting (stubEnv ans ord) step cfg st la strat i n
         = (stepEvents (msName step) i n,
            Inr (\<lparr> srName = msName step, srSuccess = False, srOutput = GoNil,
                    srError = Some (NoConsensus (totalSamples vs) (rejectedSamples vs)) \<rparr>,
                 [], GoNil, Some (NoConsensus (totalSamples vs) (rejectedSamples vs))))"
  using assms
  by (auto simp: executeMicrostepWithVoting_def resolveMicrostepAgent_def stepEvents_def
        failStep_def)

lemmas exec_stub =
  exec_stub_committed [where a = "''solver''"] exec_stub_undecided [where a = "''solver''"]

lemmas run_defs =
  runMDAP_def getTotalSteps_def stepBody_def takeCheckpoint_def microstepAt_def
  initialLoopState_def complete_def stepEvents_def goMod_def goDiv_def Let_def upto_rec1

lemmas vote_defs = initialVotes_def castVote_def arbiter_defs Let_def

text \<open>A round of three samples, whatever the answers are.\<close>

lemma round_of_three:
  "parallelSample (stubEnv ans ord) p m sp pr (configOf strategy k 3 interval) stepIdx rnd
   = Inr [sampleOf (ans stepIdx rnd 0), sampleOf (ans stepIdx rnd 1), sampleOf (ans stepIdx rnd 2)]"
  by (simp add: parallelSample_def sampleAt_stub upto_rec1)




text \<open>Every answer is the move \<open>A\<close>: one round of three votes.\<close>

lemma voting_majority_all_A:
  "votingLoop (\<lambda>site. id) (configOf ''majority'' 1 3 interval)
      (parallelSample (stubEnv (\<lambda>s r i. answer ''A'' ''S1'') id) p m sp pr
          (configOf ''majority'' 1 3 interval) stepIdx)
   = Committed ''A'' (voteSample ''A'' ''S1'')
       \<lparr> votes = [(''A'', 3)], samples = [''A'' \<mapsto> voteSample ''A'' ''S1''],
         totalSamples = 3, rejectedSamples = 0 \<rparr>"
  by (simp add: votingLoop_unfold round_of_three accept_vote vote_defs)

lemma voting_default_all_A:
  "votingLoop (\<lambda>site. id)
      (configOf ''first-to-ahead-by-k'' 3 3 interval)
      (parallelSample (stubEnv (\<lambda>s r i. answer ''A'' ''S1'') id) p m sp pr
          (configOf ''first-to-ahead-by-k'' 3 3 interval) stepIdx)
   = Committed ''A'' (voteSample ''A'' ''S1'')
       \<lparr> votes = [(''A'', 3)], samples = [''A'' \<mapsto> voteSample ''A'' ''S1''],
         totalSamples = 3, rejectedSamples = 0 \<rparr>"
  by (simp add: votingLoop_unfold round_of_three accept_vote vote_defs)

lemma run_majority_all_A:
  "runMDAP (stubEnv (\<lambda>s r i. answer ''A'' ''S1'') id)
     (pipelineOf [moveStep] []
        [(''voting_strategy'', StringValue ''majority''), (''k'', NumberValue 1)])
   = (\<lparr> result =
          \<lparr> ExecutionResult =
              \<lparr> Success = True, Output = GoString ''S1'', Error = None,
                StepResults =
                  [(''move'', \<lparr> srName = ''move'', srSuccess = True,
                               srOutput = GoString ''move = A\<newline>next_state = S1'',
                               srError = None \<rparr>)],
                Metadata = [] \<rparr>,
            TotalMicrosteps = 1, TotalSamples = 0, RejectedSamples = 0, VotingRounds = 0,
            Checkpoints = [] \<rparr>,
        state = GoString ''S1'', lastAction = ''A'',
        events =
          [\<lparr> evType = ProgressTypeStart, evStep = [], evProgress = 0, evMetadata = [] \<rparr>,
           \<lparr> evType = ProgressTypeStep, evStep = ''move'', evProgress = 0, evMetadata = [] \<rparr>,
           \<lparr> evType = ProgressTypeComplete, evStep = [], evProgress = 100,
             evMetadata = [(''total_steps'', ''1''), (''total_samples'', ''0''),
                           (''rejected_samples'', ''0''), (''duration'', ''1s'')] \<rparr>],
        stepOutputs = [(''move'', GoString ''move = A\<newline>next_state = S1'')] \<rparr>,
      Completed)"
  by (simp add: run_defs config_majority_k1 exec_stub voting_majority_all_A show_defs)

lemma run_two_steps_one_microstep:
  "snd (runMDAP (stubEnv (\<lambda>s r i. answer ''A'' ''S1'') id)
          (pipelineOf [moveStep] [(''total_steps'', NumberValue 2)] []))
   = Panicked (IndexOutOfRange 1 1)"
  by (simp add: run_defs config_default exec_stub voting_default_all_A goInt_def)

lemma executeMDAPPipeline_panicked:
  "snd (runMDAP E pipeline) = Panicked f \<Longrightarrow> executeMDAPPipeline E pipeline = Inl f"
  by (cases "runMDAP E pipeline") (simp add: executeMDAPPipeline_def)

subsection \<open>Step loop\<close>

text \<open>
  Claim C1 (the code departs from it). A pipeline with one declared microstep and
  \<open>total_steps: 2\<close> is not dynamic; at step index 1 the loop reads
  \<open>pipeline.Microsteps[1]\<close>, which is out of range, and the run ends in a panic instead of
  a synthesized microstep \<open>step-1\<close>.
\<close>

theorem microstep_index_out_of_range:
  "getTotalSteps (pipelineOf [moveStep] [(''total_steps'', NumberValue 2)] []) = 2
   \<and> microstepAt (pipelineOf [moveStep] [(''total_steps'', NumberValue 2)] []) False 1
        (GoString ''S1'') [] = Inl (IndexOutOfRange 1 1)
   \<and> executeMDAPPipeline (stubEnv (\<lambda>s r i. answer ''A'' ''S1'') id)
        (pipelineOf [moveStep] [(''total_steps'', NumberValue 2)] [])
      = Inl (IndexOutOfRange 1 1)"
proof -
  have "executeMDAPPipeline (stubEnv (\<lambda>s r i. answer ''A'' ''S1'') id)
          (pipelineOf [moveStep] [(''total_steps'', NumberValue 2)] [])
        = Inl (IndexOutOfRange 1 1)"
    by (rule executeMDAPPipeline_panicked [OF run_two_steps_one_microstep])
  then show ?thesis
    by (simp add: getTotalSteps_def microstepAt_def goInt_def)
qed

text \<open>
  Claim C2 (the code departs from it). A one-step pipeline under the majority strategy with
  \<open>k = 1\<close> and three samples per round, all three voting for the same move: the step
  commits after one full round of three samples (no short-circuit), the run completes with
  \<open>TotalMicrosteps = 1\<close>, and yet \<open>TotalSamples\<close> and \<open>RejectedSamples\<close> of the result are
  0 and the completion event reports \<open>total_samples = "0"\<close>: the counters of the voting
  loop are local to \<open>executeMicrostepWithVoting\<close> and are never added to the result.
\<close>

theorem sample_counters_never_accumulated:
  "snd (runMDAP (stubEnv (\<lambda>s r i. answer ''A'' ''S1'') id)
          (pipelineOf [moveStep] []
             [(''voting_strategy'', StringValue ''majority''), (''k'', NumberValue 1)]))
     = Completed
   \<and> ParallelSamples (loadMDAPConfig (pipelineOf [moveStep] []
             [(''voting_strategy'', StringValue ''majority''), (''k'', NumberValue 1)])) = 3
   \<and> (let ls = fst (runMDAP (stubEnv (\<lambda>s r i. answer ''A'' ''S1'') id)
                    (pipelineOf [moveStep] []
                       [(''voting_strategy'', StringValue ''majority''), (''k'', NumberValue 1)]))
      in TotalMicrosteps (result ls) = 1
         \<and> TotalSamples (result ls) = 0
         \<and> RejectedSamples (result ls) = 0
         \<and> evType (last (events ls)) = ProgressTypeComplete
         \<and> map_of (evMetadata (last (events ls))) ''total_samples'' = Some ''0''
         \<and> map_of (evMetadata (last (events ls))) ''rejected_samples'' = Some ''0'')"
  by (simp add: run_majority_all_A config_majority_k1)

subsection \<open>Red-flag filter\<close>

text \<open>
  Claim C4, as amended. For every sample and configuration, \<open>isRedFlagged\<close> is the ordered
  filter over four rules (already flagged; token count above a positive
  \<open>max_output_tokens\<close>; required and declared pattern not matched; empty action): the
  sample is rejected exactly when one of them holds, and the reason recorded is that of the
  first one that holds. No rule reads the microstep.
\<close>

theorem isRedFlagged_is_ordered_filter_of_four_rules:
  "isRedFlagged sample config = orderedFilter (filterRules config) sample"
  by (simp add: isRedFlagged_def orderedFilter_def filterRules_def)

text \<open>
  Claim C4 as stated fails: a sample whose content holds the substring \<open>rm -rf\<close>, which a
  step forbids with a \<open>contains\<close> rule, is not red-flagged.
\<close>

theorem step_red_flag_not_applied:
  "ruleFires (ContainsRule ''rm -rf'') (voteSample ''rm -rf /'' ''S1'')
   \<and> \<not> fst (isRedFlagged (voteSample ''rm -rf /'' ''S1'')
                (configOf ''first-to-ahead-by-k'' 3 3 1000))"
  by (simp add: accept_vote HasPrefix_def)

subsection \<open>Arbiter\<close>

lemma scanWinner_step:
  "scanWinner kv (M0, w0) = (if snd kv > M0 then (snd kv, fst kv) else (M0, w0))"
  by (simp add: scanWinner_def)

lemma scanVotes_step:
  "scanVotes v (M, S) = (if v > M then (v, M) else if v > S then (M, v) else (M, S))"
  by (simp add: scanVotes_def)

lemma scanWinner_fold:
  assumes "fold scanWinner l (M0, w0) = (M, w)"
  shows "(M = M0 \<and> w = w0 \<and> (\<forall>kv \<in> set l. snd kv \<le> M0))
         \<or> ((w, M) \<in> set l \<and> M0 < M \<and> (\<forall>kv \<in> set l. snd kv \<le> M))"
  using assms
proof (induction l arbitrary: M0 w0)
  case Nil
  then show ?case by simp
next
  case (Cons kv l)
  show ?case
  proof (cases "snd kv > M0")
    case True
    then have "fold scanWinner l (snd kv, fst kv) = (M, w)"
      using Cons.prems by (simp add: scanWinner_step)
    from Cons.IH [OF this] show ?thesis
      using True by auto
  next
    case False
    then have "fold scanWinner l (M0, w0) = (M, w)"
      using Cons.prems by (simp add: scanWinner_step)
    from Cons.IH [OF this] show ?thesis
      using False by auto
  qed
qed

lemma getWinner_leader:
  assumes "l \<noteq> []" and "\<forall>kv \<in> set l. 1 \<le> snd kv"
  shows "\<exists>M. (getWinner l, M) \<in> set l \<and> (\<forall>kv \<in> set l. snd kv \<le> M)"
proof -
  obtain M w where f: "fold scanWinner l (0, []) = (M, w)"
    by (cases "fold scanWinner l (0, [])")
  from scanWinner_fold [OF f] assms have "(w, M) \<in> set l \<and> (\<forall>kv \<in> set l. snd kv \<le> M)"
    by (cases l) fastforce+
  then show ?thesis
    by (auto simp: getWinner_def f)
qed

lemma scanVotes_fold:
  assumes "fold scanVotes vs (0, 0) = (M, S)"
  shows "0 \<le> S \<and> S \<le> M \<and> (M = 0 \<or> M \<in> set vs) \<and> (\<forall>x \<in> set vs. x \<le> M)
         \<and> (\<forall>x \<in># mset vs - {#M#}. x \<le> S) \<and> (S = 0 \<or> S \<in># mset vs - {#M#})"
  using assms
proof (induction vs arbitrary: M S rule: rev_induct)
  case Nil
  then show ?case by simp
next
  case (snoc v vs)
  obtain M' S' where f: "fold scanVotes vs (0, 0) = (M', S')"
    by (cases "fold scanVotes vs (0, 0)")
  note ih = snoc.IH [OF f]
  have step: "scanVotes v (M', S') = (M, S)"
    using snoc.prems f by simp
  consider (a) "v > M'" | (b) "\<not> v > M'" "v > S'" | (c) "\<not> v > M'" "\<not> v > S'"
    by blast
  then show ?case
  proof cases
    case a
    then have "M = v" "S = M'" using step by (simp_all add: scanVotes_step)
    then show ?thesis using ih a by auto
  next
    case b
    then have e: "M = M'" "S = v" using step by (simp_all add: scanVotes_step)
    have mem: "M' \<in> set vs" using ih b by auto
    then have "mset (vs @ [v]) - {#M'#} = (mset vs - {#M'#}) + {#v#}"
      by simp
    then show ?thesis using ih b e by auto
  next
    case c
    then have e: "M = M'" "S = S'" using step by (simp_all add: scanVotes_step)
    show ?thesis
    proof (cases "M' \<in> set vs")
      case True
      then have "mset (vs @ [v]) - {#M'#} = (mset vs - {#M'#}) + {#v#}"
        by simp
      then show ?thesis using ih c e by auto
    next
      case False
      then have m0: "M' = 0" using ih by auto
      have "mset vs - {#M'#} = mset vs" using False by (simp add: diff_single_trivial)
      show ?thesis
      proof (cases "v = 0")
        case True
        then have "mset (vs @ [v]) - {#M'#} = mset vs" using m0 by simp
        then show ?thesis using ih c e \<open>mset vs - {#M'#} = mset vs\<close> True m0 by auto
      next
        case nz: False
        then have "mset (vs @ [v]) - {#M'#} = mset vs + {#v#}"
          using m0 False by (simp add: diff_single_trivial)
        then show ?thesis using ih c e \<open>mset vs - {#M'#} = mset vs\<close> m0 by auto
      qed
    qed
  qed
qed


lemma fold_max_Max: "fold max xs (0::int) = Max (insert 0 (set xs))"
  using Max.set_eq_fold [of 0 xs] by simp

lemma runnerUp_Max:
  "runnerUp kvs w = Max (insert 0 (snd ` {kv \<in> set kvs. fst kv \<noteq> w}))"
  by (simp add: runnerUp_def fold_max_Max)

lemma runnerUp_bounds:
  "0 \<le> runnerUp kvs w"
  "(a, v) \<in> set kvs \<Longrightarrow> a \<noteq> w \<Longrightarrow> v \<le> runnerUp kvs w"
proof -
  show "0 \<le> runnerUp kvs w"
    by (simp add: runnerUp_Max)
  assume "(a, v) \<in> set kvs" "a \<noteq> w"
  then have "v \<in> snd ` {kv \<in> set kvs. fst kv \<noteq> w}"
    by force
  then show "v \<le> runnerUp kvs w"
    by (simp add: runnerUp_Max)
qed

lemma others_mset:
  "distinct (map fst kvs) \<Longrightarrow> (w, M) \<in> set kvs
   \<Longrightarrow> mset (filter (\<lambda>kv. fst kv \<noteq> w) kvs) = mset kvs - {#(w, M)#}"
proof (induction kvs)
  case Nil
  then show ?case by simp
next
  case (Cons kv kvs)
  show ?case
  proof (cases "kv = (w, M)")
    case True
    then have "\<forall>x \<in> set kvs. fst x \<noteq> w"
      using Cons.prems by force
    then have "filter (\<lambda>kv. fst kv \<noteq> w) kvs = kvs"
      by (simp add: filter_id_conv)
    then show ?thesis using True by simp
  next
    case False
    then have in_rest: "(w, M) \<in> set kvs"
      using Cons.prems by auto
    then have "w \<in> fst ` set kvs"
      by force
    then have "fst kv \<noteq> w"
      using Cons.prems(1) by auto
    then show ?thesis
      using Cons in_rest False by simp
  qed
qed

lemma scan_tally:
  assumes d: "distinct (map fst kvs)"
    and pos: "\<forall>kv \<in> set kvs. 1 \<le> snd kv"
    and l: "mset l = mset kvs"
    and w: "(w, M) \<in> set kvs"
    and mx: "\<forall>kv \<in> set kvs. snd kv \<le> M"
  shows "fold scanVotes (map snd l) (0, 0) = (M, runnerUp kvs w)"
proof -
  obtain M' S where f: "fold scanVotes (map snd l) (0, 0) = (M', S)"
    by (cases "fold scanVotes (map snd l) (0, 0)")
  note c = scanVotes_fold [OF f]
  have sl: "set l = set kvs"
    using l by (metis set_mset_mset)
  have M1: "1 \<le> M" using pos w by force
  have "M \<le> M'" using c w sl by force
  moreover have "M' = 0 \<or> M' \<le> M" using c mx sl by auto
  ultimately have M': "M' = M" using M1 by auto
  have "mset (map snd l) - {#M#} = image_mset snd (mset kvs - {#(w, M)#})"
    using w l by (simp add: image_mset_Diff)
  also have "\<dots> = mset (map snd (filter (\<lambda>kv. fst kv \<noteq> w) kvs))"
    using others_mset [OF d w] by simp
  finally have rest: "mset (map snd l) - {#M#} = mset (map snd (filter (\<lambda>kv. fst kv \<noteq> w) kvs))" .
  have "S = Max (insert 0 (snd ` {kv \<in> set kvs. fst kv \<noteq> w}))"
  proof (rule Max_eqI [symmetric])
    show "finite (insert 0 (snd ` {kv \<in> set kvs. fst kv \<noteq> w}))" by simp
    show "\<And>y. y \<in> insert 0 (snd ` {kv \<in> set kvs. fst kv \<noteq> w}) \<Longrightarrow> y \<le> S"
      using c unfolding M' rest by auto
    show "S \<in> insert 0 (snd ` {kv \<in> set kvs. fst kv \<noteq> w})"
      using c unfolding M' rest by auto
  qed
  then show ?thesis
    by (simp add: f M' runnerUp_Max)
qed

lemma hasWinner_tally:
  assumes "distinct (map fst kvs)" and "\<forall>kv \<in> set kvs. 1 \<le> snd kv"
    and "mset l = mset kvs" and "(w, M) \<in> set kvs" and "\<forall>kv \<in> set kvs. snd kv \<le> M"
  shows "hasWinner l k \<longleftrightarrow> wrap64 (runnerUp kvs w + k) \<le> M"
proof -
  have "l \<noteq> []" using assms(3,4) by auto
  then show ?thesis
    by (simp add: hasWinner_def scan_tally [OF assms])
qed

lemma voteCount_entry:
  "distinct (map fst kvs) \<Longrightarrow> (a, v) \<in> set kvs \<Longrightarrow> voteCount kvs a = v"
  by (simp add: voteCount_def)

text \<open>Whatever the order of the visit, \<open>getWinner\<close> returns an action with the highest
  count.\<close>

lemma getWinner_tally:
  assumes d: "distinct (map fst kvs)" and pos: "\<forall>kv \<in> set kvs. 1 \<le> snd kv"
    and ne: "kvs \<noteq> []" and l: "mset l = mset kvs"
  shows "(getWinner l, voteCount kvs (getWinner l)) \<in> set kvs
         \<and> (\<forall>kv \<in> set kvs. snd kv \<le> voteCount kvs (getWinner l))"
proof -
  have sl: "set l = set kvs"
    using l by (metis set_mset_mset)
  have "l \<noteq> []" using ne l by auto
  moreover have "\<forall>kv \<in> set l. 1 \<le> snd kv" using pos sl by simp
  ultimately obtain M where "(getWinner l, M) \<in> set l" "\<forall>kv \<in> set l. snd kv \<le> M"
    using getWinner_leader by blast
  then show ?thesis
    using sl voteCount_entry [OF d] by auto
qed

text \<open>The two arbiter functions agree on every visit of the same tally: \<open>hasWinner\<close> does
  not depend on the order, and when it holds for a margin of at least one that does not
  overflow, the leader is unique and \<open>getWinner\<close> returns it.\<close>

lemma hasWinner_order:
  assumes d: "distinct (map fst kvs)" and pos: "\<forall>kv \<in> set kvs. 1 \<le> snd kv"
    and l1: "mset l1 = mset kvs" and l2: "mset l2 = mset kvs"
  shows "hasWinner l1 k = hasWinner l2 k"
proof (cases "kvs = []")
  case True
  then show ?thesis using l1 l2 by simp
next
  case False
  let ?w = "getWinner kvs"
  have w: "(?w, voteCount kvs ?w) \<in> set kvs" "\<forall>kv \<in> set kvs. snd kv \<le> voteCount kvs ?w"
    using getWinner_tally [OF d pos False refl] by auto
  show ?thesis
    by (simp add: hasWinner_tally [OF d pos l1 w] hasWinner_tally [OF d pos l2 w])
qed

lemma margin_of_winner:
  assumes d: "distinct (map fst kvs)" and pos: "\<forall>kv \<in> set kvs. 1 \<le> snd kv"
    and l1: "mset l1 = mset kvs" and l2: "mset l2 = mset kvs"
    and h: "hasWinner l1 k"
  shows "wrap64 (runnerUp kvs (getWinner l2) + k) \<le> voteCount kvs (getWinner l2)"
proof -
  have ne: "kvs \<noteq> []" using h l1 by (auto simp: hasWinner_def)
  let ?w = "getWinner l2"
  have w: "(?w, voteCount kvs ?w) \<in> set kvs" "\<forall>kv \<in> set kvs. snd kv \<le> voteCount kvs ?w"
    using getWinner_tally [OF d pos ne l2] by auto
  show ?thesis
    using h by (simp add: hasWinner_tally [OF d pos l1 w])
qed

lemma getWinner_order:
  assumes d: "distinct (map fst kvs)" and pos: "\<forall>kv \<in> set kvs. 1 \<le> snd kv"
    and l0: "mset l0 = mset kvs" and l1: "mset l1 = mset kvs" and l2: "mset l2 = mset kvs"
    and h: "hasWinner l0 k" and k: "1 \<le> k"
    and nowrap: "\<forall>a. runnerUp kvs a + k < 2 ^ 63"
  shows "getWinner l1 = getWinner l2"
proof (rule ccontr)
  assume neq: "getWinner l1 \<noteq> getWinner l2"
  have ne: "kvs \<noteq> []" using h l0 by (auto simp: hasWinner_def)
  let ?a = "getWinner l1" and ?b = "getWinner l2"
  have a: "(?a, voteCount kvs ?a) \<in> set kvs" "\<forall>kv \<in> set kvs. snd kv \<le> voteCount kvs ?a"
    using getWinner_tally [OF d pos ne l1] by auto
  have b: "(?b, voteCount kvs ?b) \<in> set kvs" "\<forall>kv \<in> set kvs. snd kv \<le> voteCount kvs ?b"
    using getWinner_tally [OF d pos ne l2] by auto
  have "wrap64 (runnerUp kvs ?a + k) \<le> voteCount kvs ?a"
    using margin_of_winner [OF d pos l0 l1 h] .
  moreover have "wrap64 (runnerUp kvs ?a + k) = runnerUp kvs ?a + k"
    using nowrap [rule_format, of ?a] runnerUp_bounds(1) [of kvs ?a] k
    by (simp add: wrap64_def)
  moreover have "voteCount kvs ?b \<le> runnerUp kvs ?a"
    using runnerUp_bounds(2) [OF b(1)] neq by simp
  moreover have "voteCount kvs ?a \<le> voteCount kvs ?b"
    using a(1) b(2) by force
  ultimately show False using k by simp
qed

subsection \<open>Tally\<close>

lemma map_of_incVote:
  "map_of (incVote a kvs) = (map_of kvs)(a \<mapsto> (case map_of kvs a of None \<Rightarrow> 1 | Some c \<Rightarrow> c + 1))"
  by (induction kvs) (auto simp: fun_eq_iff)

lemma keys_incVote: "fst ` set (incVote a kvs) = insert a (fst ` set kvs)"
  by (simp add: dom_map_of_conv_image_fst [symmetric] map_of_incVote)

lemma distinct_incVote: "distinct (map fst kvs) \<Longrightarrow> distinct (map fst (incVote a kvs))"
  by (induction kvs) (auto simp: keys_incVote)

lemma accepted_unchanged: "\<not> fst (isRedFlagged s config) \<Longrightarrow> snd (isRedFlagged s config) = s"
  by (auto simp: isRedFlagged_def split: if_splits)

lemma votesFor_snoc_rejected:
  "fst (isRedFlagged s config) \<Longrightarrow> votesFor config a (seen @ [s]) = votesFor config a seen"
  by (simp add: votesFor_def acceptedIn_def)

lemma votesFor_snoc_accepted:
  "\<not> fst (isRedFlagged s config)
   \<Longrightarrow> votesFor config a (seen @ [s])
       = (if voteKey s = a then votesFor config a seen @ [s] else votesFor config a seen)"
  by (simp add: votesFor_def acceptedIn_def)

lemma represents_reject:
  "represents config vs seen \<Longrightarrow> fst (isRedFlagged s config)
   \<Longrightarrow> represents config (vs\<lparr>rejectedSamples := r\<rparr>) (seen @ [s])"
  by (simp add: represents_def votesFor_snoc_rejected)

lemma represents_cast:
  assumes "represents config vs seen" and "\<not> fst (isRedFlagged s config)"
  shows "represents config (castVote (snd (isRedFlagged s config)) vs) (seen @ [s])"
  using assms
  by (auto simp: represents_def castVote_def accepted_unchanged votesFor_snoc_accepted
        map_of_incVote distinct_incVote)

lemma represents_total:
  "represents config (vs\<lparr>totalSamples := t\<rparr>) seen = represents config vs seen"
  by (simp add: represents_def)

lemma represents_initial: "represents config initialVotes []"
  by (simp add: represents_def initialVotes_def votesFor_def acceptedIn_def)

lemma represents_tallyStep:
  "represents config vs seen \<Longrightarrow> represents config (tallyStep config s vs) (seen @ [s])"
  by (simp add: tallyStep_def represents_reject represents_cast)

lemma represents_fold:
  "represents config vs seen \<Longrightarrow> represents config (fold (tallyStep config) xs vs) (seen @ xs)"
proof (induction xs arbitrary: vs seen)
  case Nil
  then show ?case by simp
next
  case (Cons s xs)
  from Cons.IH [OF represents_tallyStep [OF Cons.prems, of s]] show ?case by simp
qed

lemma represents_tallyOf: "represents config (tallyOf config seen) seen"
  using represents_fold [OF represents_initial, of config seen]
  by (simp add: tallyOf_def represents_total)

text \<open>What a tally that represents the processed samples looks like to the arbiter.\<close>

lemma represents_entries:
  assumes "represents config vs seen"
  shows "distinct (map fst (votes vs))"
    and "\<forall>kv \<in> set (votes vs). 1 \<le> snd kv"
    and "voteCount (votes vs) a = int (length (votesFor config a seen))"
    and "\<forall>kv \<in> set (votes vs). snd kv \<le> int (length seen)"
proof -
  show d: "distinct (map fst (votes vs))"
    using assms by (simp add: represents_def)
  have m: "map_of (votes vs) b
             = (if votesFor config b seen = [] then None
                else Some (int (length (votesFor config b seen))))" for b
    using assms by (simp add: represents_def)
  have e: "snd kv = int (length (votesFor config (fst kv) seen)) \<and> votesFor config (fst kv) seen \<noteq> []"
    if "kv \<in> set (votes vs)" for kv
  proof -
    have "map_of (votes vs) (fst kv) = Some (snd kv)"
      using that d by simp
    then show ?thesis
      using m [of "fst kv"] by (auto split: if_splits)
  qed
  show "\<forall>kv \<in> set (votes vs). 1 \<le> snd kv"
  proof
    fix kv assume "kv \<in> set (votes vs)"
    from e [OF this] show "1 \<le> snd kv"
      by (cases "votesFor config (fst kv) seen") auto
  qed
  show "voteCount (votes vs) a = int (length (votesFor config a seen))"
    by (simp add: voteCount_def m)
  show "\<forall>kv \<in> set (votes vs). snd kv \<le> int (length seen)"
  proof
    fix kv assume "kv \<in> set (votes vs)"
    from e [OF this] have "snd kv = int (length (votesFor config (fst kv) seen))" by simp
    also have "\<dots> \<le> int (length (acceptedIn config seen))"
      by (simp add: votesFor_def)
    also have "\<dots> \<le> int (length seen)"
      by (simp add: acceptedIn_def)
    finally show "snd kv \<le> int (length seen)" .
  qed
qed

lemma declareWinner_sample:
  "declareWinner ord vs = Committed w smp vs'
   \<Longrightarrow> vs' = vs \<and> samples vs w = Some smp \<and> w = getWinner (ord RangeGetWinner (votes vs))"
  by (auto simp: declareWinner_def Let_def split: option.splits)

lemma declareWinner_not_undecided: "declareWinner ord vs \<noteq> Undecided vs'"
  by (simp add: declareWinner_def Let_def split: option.splits)

lemma tally_represents:
  assumes "represents config vs seen"
  shows "case tallySamples ord config vs xs of
           Undecided vs' \<Rightarrow> represents config vs' (seen @ xs)
         | Committed w smp vs' \<Rightarrow>
             (\<exists>ys zs. xs = ys @ zs \<and> represents config vs' (seen @ ys))
             \<and> samples vs' w = Some smp
             \<and> w = getWinner (ord RangeGetWinner (votes vs'))
             \<and> VotingStrategy config = ''first-to-ahead-by-k''
             \<and> hasWinner (ord RangeHasWinner (votes vs')) (K config)
         | Faulted f \<Rightarrow> True"
  using assms
proof (induction xs arbitrary: vs seen)
  case Nil
  then show ?case by simp
next
  case (Cons s xs)
  show ?case
  proof (cases "fst (isRedFlagged s config)")
    case True
    have r: "represents config (vs\<lparr>rejectedSamples := rejectedSamples vs + 1\<rparr>) (seen @ [s])"
      using represents_reject [OF Cons.prems True] .
    show ?thesis
      using Cons.IH [OF r] True
      by (auto split: vote_outcome.splits) (metis append_Cons)
  next
    case False
    let ?vs = "castVote (snd (isRedFlagged s config)) vs"
    have r: "represents config ?vs (seen @ [s])"
      using represents_cast [OF Cons.prems False] .
    show ?thesis
    proof (cases "VotingStrategy config = ''first-to-ahead-by-k''
                  \<and> hasWinner (ord RangeHasWinner (votes ?vs)) (K config)")
      case True
      then have eq: "tallySamples ord config vs (s # xs) = declareWinner ord ?vs"
        using False by (simp add: Let_def)
      show ?thesis
      proof (cases "declareWinner ord ?vs")
        case (Committed w smp vs')
        then have "vs' = ?vs" "samples ?vs w = Some smp"
          "w = getWinner (ord RangeGetWinner (votes ?vs))"
          using declareWinner_sample by blast+
        moreover have "s # xs = [s] @ xs" by simp
        ultimately show ?thesis
          using r Committed eq True by (auto intro: exI [of _ "[s]"])
      next
        case (Undecided vs')
        then show ?thesis
          by (simp add: declareWinner_not_undecided)
      next
        case (Faulted f)
        then show ?thesis using eq by simp
      qed
    next
      case nw: False
      then have eq: "tallySamples ord config vs (s # xs) = tallySamples ord config ?vs xs"
        using False by (auto simp: Let_def)
      show ?thesis
        using Cons.IH [OF r] eq
        by (auto split: vote_outcome.splits) (metis append_Cons)
    qed
  qed
qed

lemma rounds_represent:
  assumes "represents config vs seen"
  shows "case votingRounds ord config sampler vs rounds of
           Undecided vs' \<Rightarrow> True
         | Committed w smp vs' \<Rightarrow>
             (\<exists>ys zs. concat (map (drawnOf sampler) rounds) = ys @ zs
                      \<and> represents config vs' (seen @ ys))
             \<and> samples vs' w = Some smp
             \<and> w = getWinner (ord RangeGetWinner (votes vs'))
             \<and> (VotingStrategy config = ''first-to-ahead-by-k''
                  \<longrightarrow> hasWinner (ord RangeHasWinner (votes vs')) (K config))
         | Faulted f \<Rightarrow> True"
  using assms
proof (induction rounds arbitrary: vs seen)
  case Nil
  then show ?case by simp
next
  case (Cons rnd rounds)
  show ?case
  proof (cases "sampler rnd")
    case (Inl f)
    then show ?thesis by simp
  next
    case (Inr xs)
    let ?vs = "vs\<lparr>totalSamples := totalSamples vs + int (length xs)\<rparr>"
    have d: "drawnOf sampler rnd = xs"
      by (simp add: drawnOf_def Inr)
    have r: "represents config ?vs seen"
      using Cons.prems by (simp add: represents_total)
    note t = tally_represents [OF r, where ord = ord and xs = xs]
    show ?thesis
    proof (cases "tallySamples ord config ?vs xs")
      case (Committed w smp vs')
      then obtain ys zs where "xs = ys @ zs" "represents config vs' (seen @ ys)"
        and s: "samples vs' w = Some smp" "w = getWinner (ord RangeGetWinner (votes vs'))"
          "hasWinner (ord RangeHasWinner (votes vs')) (K config)"
        using t by auto
      then have "concat (map (drawnOf sampler) (rnd # rounds))
                   = ys @ (zs @ concat (map (drawnOf sampler) rounds))
                 \<and> represents config vs' (seen @ ys)"
        by (simp add: d)
      then show ?thesis
        using Committed Inr s by auto
    next
      case (Undecided vs')
      then have r': "represents config vs' (seen @ xs)"
        using t by simp
      show ?thesis
      proof (cases "VotingStrategy config = ''majority'' \<and> length (votes vs') > 0
                    \<and> totalSamples vs' \<ge> wrap64 (K config * 3)")
        case True
        then have eq: "votingRounds ord config sampler vs (rnd # rounds) = declareWinner ord vs'"
          using Inr Undecided by simp
        show ?thesis
        proof (cases "declareWinner ord vs'")
          case (Committed w smp vs'')
          then have "vs'' = vs'" "samples vs' w = Some smp"
            "w = getWinner (ord RangeGetWinner (votes vs'))"
            using declareWinner_sample by blast+
          moreover have "concat (map (drawnOf sampler) (rnd # rounds))
                           = xs @ concat (map (drawnOf sampler) rounds)"
            by (simp add: d)
          ultimately show ?thesis
            using r' Committed eq True by auto
        next
          case (Undecided vs'')
          then show ?thesis using eq by simp
        next
          case (Faulted f)
          then show ?thesis using eq by simp
        qed
      next
        case False
        then have eq: "votingRounds ord config sampler vs (rnd # rounds)
                         = votingRounds ord config sampler vs' rounds"
          using Inr Undecided by auto
        note ih = Cons.IH [OF r']
        show ?thesis
        proof (cases "votingRounds ord config sampler vs' rounds")
          case (Committed w smp vs'')
          then obtain ys zs where
            "concat (map (drawnOf sampler) rounds) = ys @ zs"
            "represents config vs'' ((seen @ xs) @ ys)" 
            and s: "samples vs'' w = Some smp"
              "w = getWinner (ord RangeGetWinner (votes vs''))"
              "VotingStrategy config = ''first-to-ahead-by-k''
                  \<longrightarrow> hasWinner (ord RangeHasWinner (votes vs'')) (K config)"
            using ih by auto
          then have "concat (map (drawnOf sampler) (rnd # rounds)) = (xs @ ys) @ zs
                     \<and> represents config vs'' (seen @ (xs @ ys))"
            by (simp add: d)
          then show ?thesis
            using Committed eq s by (auto simp del: append_assoc)
        next
          case (Undecided vs'')
          then show ?thesis using eq by simp
        next
          case (Faulted f)
          then show ?thesis using eq by simp
        qed
      qed
    next
      case (Faulted f)
      then show ?thesis using Inr by simp
    qed
  qed
qed

text \<open>The facts of a commit: the tally is the one of a prefix of the samples that the loop
  may draw, the winner is the action that \<open>getWinner\<close> returns on it, the sample returned is
  the winner's representative, and under first-to-ahead-by-k \<open>hasWinner\<close> has held on it.\<close>

lemma votingLoop_commit:
  assumes "votingLoop ord config sampler = Committed w smp vs"
  shows "\<exists>ys zs. sampleStream config sampler = ys @ zs \<and> represents config vs ys
           \<and> samples vs w = Some smp
           \<and> w = getWinner (ord RangeGetWinner (votes vs))
           \<and> (VotingStrategy config = ''first-to-ahead-by-k''
                \<longrightarrow> hasWinner (ord RangeHasWinner (votes vs)) (K config))"
  using rounds_represent [OF represents_initial, where ord = ord and config = config
      and sampler = sampler and rounds = "[0..MaxRetries config - 1]"] assms
  by (auto simp: votingLoop_def sampleStream_def)

lemma votesFor_append:
  "votesFor config a (ys @ zs) = votesFor config a ys @ votesFor config a zs"
  by (simp add: votesFor_def acceptedIn_def)

subsection \<open>Majority voting\<close>

lemma tally_no_shortcut:
  "VotingStrategy config \<noteq> ''first-to-ahead-by-k''
   \<Longrightarrow> tallySamples ord config vs xs = Undecided (fold (tallyStep config) xs vs)"
  by (induction xs arbitrary: vs) (simp_all add: tallyStep_def Let_def)

lemma tallyStep_totalSamples:
  "tallyStep config s (vs\<lparr>totalSamples := t\<rparr>) = (tallyStep config s vs)\<lparr>totalSamples := t\<rparr>"
  by (simp add: tallyStep_def castVote_def)

lemma fold_tallyStep_totalSamples:
  "fold (tallyStep config) xs (vs\<lparr>totalSamples := t\<rparr>)
   = (fold (tallyStep config) xs vs)\<lparr>totalSamples := t\<rparr>"
  by (induction xs arbitrary: vs) (simp_all add: tallyStep_totalSamples)

lemma incVote_nonempty [simp]: "incVote a kvs \<noteq> []"
  by (cases kvs) (auto split: if_splits)

lemma votes_fold_tallyStep:
  "votes (fold (tallyStep config) xs vs) \<noteq> [] \<longleftrightarrow> votes vs \<noteq> [] \<or> acceptedIn config xs \<noteq> []"
  by (induction xs arbitrary: vs) (auto simp: tallyStep_def castVote_def acceptedIn_def)

lemma votes_tallyOf:
  "votes (tallyOf config seen) \<noteq> [] \<longleftrightarrow> acceptedIn config seen \<noteq> []"
  by (simp add: tallyOf_def votes_fold_tallyStep initialVotes_def)

lemma totalSamples_tallyOf [simp]: "totalSamples (tallyOf config seen) = int (length seen)"
  by (simp add: tallyOf_def)

lemma tallyOf_append:
  "fold (tallyStep config) r ((tallyOf config seen)\<lparr>totalSamples := int (length seen) + int (length r)\<rparr>)
   = tallyOf config (seen @ r)"
  by (simp add: tallyOf_def fold_tallyStep_totalSamples)

lemma majority_rounds_from:
  assumes maj: "VotingStrategy config = ''majority''"
    and smp: "\<forall>rnd \<in> set rounds. sampler rnd = Inr (drawn rnd)"
  shows "votingRounds ord config sampler (tallyOf config seen) rounds
         = (case majorityRounds config seen (map drawn rounds) of
              None \<Rightarrow> Undecided (tallyOf config (seen @ concat (map drawn rounds)))
            | Some H \<Rightarrow> declareWinner ord (tallyOf config H))"
  using smp
proof (induction rounds arbitrary: seen)
  case Nil
  then show ?case by simp
next
  case (Cons rnd rounds)
  have ns: "VotingStrategy config \<noteq> ''first-to-ahead-by-k''"
    using maj by simp
  have step: "tallySamples ord config
                ((tallyOf config seen)\<lparr>totalSamples := int (length seen)
                                          + int (length (drawn rnd))\<rparr>) (drawn rnd)
              = Undecided (tallyOf config (seen @ drawn rnd))"
    by (simp add: tally_no_shortcut [OF ns] tallyOf_append)
  have rest: "votingRounds ord config sampler (tallyOf config (seen @ drawn rnd)) rounds
         = (case majorityRounds config (seen @ drawn rnd) (map drawn rounds) of
              None \<Rightarrow> Undecided (tallyOf config ((seen @ drawn rnd) @ concat (map drawn rounds)))
            | Some H \<Rightarrow> declareWinner ord (tallyOf config H))"
    using Cons.IH [of "seen @ drawn rnd"] Cons.prems by simp
  show ?case
    using Cons.prems maj
    by (simp add: step rest votes_tallyOf cong: option.case_cong)
qed

lemma majorityRounds_accepted:
  "majorityRounds config seen rs = Some H \<Longrightarrow> acceptedIn config H \<noteq> []"
  by (induction rs arbitrary: seen) (auto split: if_splits)

text \<open>The winner that is declared on the tally of the samples \<open>H\<close>, when at least one of them
  is accepted and every entry of the tally is visited once.\<close>

lemma declareWinner_leader:
  assumes acc: "acceptedIn config H \<noteq> []"
    and ord: "visitsEachEntryOnce ord"
  shows "\<exists>w. declareWinner ord (tallyOf config H)
                = Committed w (last (votesFor config w H)) (tallyOf config H)
              \<and> votesFor config w H \<noteq> []
              \<and> (\<forall>a. length (votesFor config a H) \<le> length (votesFor config w H))"
proof -
  let ?vs = "tallyOf config H"
  let ?w = "getWinner (ord RangeGetWinner (votes ?vs))"
  have r: "represents config ?vs H"
    by (rule represents_tallyOf)
  note e = represents_entries [OF r]
  have ne: "votes ?vs \<noteq> []"
    using acc by (simp add: votes_tallyOf)
  have l: "mset (ord RangeGetWinner (votes ?vs)) = mset (votes ?vs)"
    using ord by (simp add: visitsEachEntryOnce_def)
  note g = getWinner_tally [OF e(1) e(2) ne l]
  have cnt: "voteCount (votes ?vs) a = int (length (votesFor config a H))" for a
    by (rule e(3))
  have pos: "1 \<le> voteCount (votes ?vs) ?w"
    using g e(2) by force
  then have nw: "votesFor config ?w H \<noteq> []"
    by (auto simp: cnt)
  have lead: "length (votesFor config a H) \<le> length (votesFor config ?w H)" for a
  proof (cases "votesFor config a H = []")
    case True
    then show ?thesis by simp
  next
    case False
    then have "map_of (votes ?vs) a = Some (int (length (votesFor config a H)))"
      using r by (simp add: represents_def)
    then have "(a, int (length (votesFor config a H))) \<in> set (votes ?vs)"
      by (rule map_of_SomeD)
    then have "int (length (votesFor config a H)) \<le> voteCount (votes ?vs) ?w"
      using g by force
    then show ?thesis by (simp add: cnt)
  qed
  have "samples ?vs ?w = Some (last (votesFor config ?w H))"
    using r nw by (simp add: represents_def)
  then have "declareWinner ord ?vs = Committed ?w (last (votesFor config ?w H)) ?vs"
    by (simp add: declareWinner_def Let_def)
  then show ?thesis
    using nw lead by blast
qed

text \<open>
  Claim C5, as amended. Under the majority strategy, with a visit of the tally that takes
  every entry once, the voting loop of a step declares a winner at the end of the first
  round at which at least one non-rejected sample has been tallied for the step and the
  cumulative number of samples drawn for the step, rejected ones included, is at least
  \<open>3k\<close> (the 64-bit product). The step then commits, on the tally of all the samples drawn
  so far, an action that leads it: it has at least one vote and no action has more votes
  than it; the sample that is committed with it is the last one that voted for it. When no
  round gets there the step stays undecided.
\<close>

theorem majority_winner_at_first_round_with_3k_samples_drawn:
  assumes "VotingStrategy config = ''majority''"
    and "\<forall>rnd \<in> set [0..MaxRetries config - 1]. sampler rnd = Inr (drawn rnd)"
    and "visitsEachEntryOnce ord"
  shows "case majorityRounds config [] (map drawn [0..MaxRetries config - 1]) of
           None \<Rightarrow>
             votingLoop ord config sampler
               = Undecided (tallyOf config (concat (map drawn [0..MaxRetries config - 1])))
         | Some H \<Rightarrow>
             (\<exists>w. votingLoop ord config sampler
                     = Committed w (last (votesFor config w H)) (tallyOf config H)
                   \<and> votesFor config w H \<noteq> []
                   \<and> (\<forall>a. length (votesFor config a H) \<le> length (votesFor config w H))
                   \<and> (\<forall>a. voteCount (votes (tallyOf config H)) a
                             = int (length (votesFor config a H))))"
proof -
  have init: "tallyOf config [] = initialVotes"
    by (simp add: tallyOf_def initialVotes_def)
  have loop: "votingLoop ord config sampler
         = (case majorityRounds config [] (map drawn [0..MaxRetries config - 1]) of
              None \<Rightarrow> Undecided (tallyOf config (concat (map drawn [0..MaxRetries config - 1])))
            | Some H \<Rightarrow> declareWinner ord (tallyOf config H))"
    using majority_rounds_from [OF assms(1,2), of ord "[]"] init
    by (simp add: votingLoop_def cong: option.case_cong)
  show ?thesis
  proof (cases "majorityRounds config [] (map drawn [0..MaxRetries config - 1])")
    case None
    then show ?thesis using loop by simp
  next
    case (Some H)
    have acc: "acceptedIn config H \<noteq> []"
      using majorityRounds_accepted [OF Some] .
    from declareWinner_leader [OF acc assms(3)] obtain w where
      "declareWinner ord (tallyOf config H)
         = Committed w (last (votesFor config w H)) (tallyOf config H)"
      "votesFor config w H \<noteq> []"
      "\<forall>a. length (votesFor config a H) \<le> length (votesFor config w H)"
      by blast
    moreover have "\<forall>a. voteCount (votes (tallyOf config H)) a
                         = int (length (votesFor config a H))"
      using represents_entries(3) [OF represents_tallyOf] by blast
    ultimately show ?thesis
      using loop Some by auto
  qed
qed

lemma voting_one_vote:
  "votingLoop (\<lambda>site. id) (configOf ''majority'' 1 3 interval)
      (parallelSample (stubEnv oneVoteAnswers id) p m sp pr
          (configOf ''majority'' 1 3 interval) stepIdx)
   = Committed ''A'' (voteSample ''A'' ''S1'')
       \<lparr> votes = [(''A'', 1)], samples = [''A'' \<mapsto> voteSample ''A'' ''S1''],
         totalSamples = 3, rejectedSamples = 2 \<rparr>"
  by (simp add: votingLoop_unfold round_of_three oneVoteAnswers_def accept_vote reject_failed
        vote_defs)

lemma run_one_vote:
  "snd (runMDAP (stubEnv oneVoteAnswers id)
          (pipelineOf [moveStep] []
             [(''voting_strategy'', StringValue ''majority''), (''k'', NumberValue 1)]))
     = Completed
   \<and> lastAction (fst (runMDAP (stubEnv oneVoteAnswers id)
          (pipelineOf [moveStep] []
             [(''voting_strategy'', StringValue ''majority''), (''k'', NumberValue 1)]))) = ''A''"
  by (simp add: run_defs config_majority_k1 exec_stub voting_one_vote show_defs)

text \<open>
  Claim C5 as stated fails. With \<open>k = 1\<close> and rounds of three samples of which two are
  rejected, the winner is declared at the end of the first round: three samples have been
  drawn, but only one of them is non-rejected, fewer than \<open>3k = 3\<close>.
\<close>

theorem majority_declared_below_3k_accepted_samples:
  "votingLoop (\<lambda>site. id) (configOf ''majority'' 1 3 1000)
      (parallelSample (stubEnv oneVoteAnswers id) ''provider'' ''model'' [] []
          (configOf ''majority'' 1 3 1000) 0)
   = Committed ''A'' (voteSample ''A'' ''S1'')
       \<lparr> votes = [(''A'', 1)], samples = [''A'' \<mapsto> voteSample ''A'' ''S1''],
         totalSamples = 3, rejectedSamples = 2 \<rparr>
   \<and> 3 - 2 < 3 * K (configOf ''majority'' 1 3 1000)
   \<and> snd (runMDAP (stubEnv oneVoteAnswers id)
          (pipelineOf [moveStep] []
             [(''voting_strategy'', StringValue ''majority''), (''k'', NumberValue 1)]))
     = Completed
   \<and> lastAction (fst (runMDAP (stubEnv oneVoteAnswers id)
          (pipelineOf [moveStep] []
             [(''voting_strategy'', StringValue ''majority''), (''k'', NumberValue 1)]))) = ''A''"
  using run_one_vote by (simp add: voting_one_vote)

text \<open>Two actions on the tally, visited in reverse order.\<close>

lemma voting_mixed_majority:
  "votingLoop (\<lambda>site. rev) (configOf ''majority'' 1 3 interval)
      (parallelSample (stubEnv mixedAnswers ord) p m sp pr
          (configOf ''majority'' 1 3 interval) stepIdx)
   = Committed ''A'' (voteSample ''A'' ''S2'')
       \<lparr> votes = [(''A'', 2), (''B'', 1)],
         samples = [''A'' \<mapsto> voteSample ''A'' ''S1'', ''B'' \<mapsto> voteSample ''B'' ''S2'',
                    ''A'' \<mapsto> voteSample ''A'' ''S2''],
         totalSamples = 3, rejectedSamples = 0 \<rparr>"
  by (simp add: votingLoop_unfold round_of_three mixedAnswers_def accept_vote vote_defs)

theorem majority_winner_at_first_round_with_3k_samples_drawn_witness:
  "VotingStrategy (configOf ''majority'' 1 3 1000) = ''majority''
   \<and> visitsEachEntryOnce (\<lambda>site. rev)
   \<and> parallelSample (stubEnv mixedAnswers rev) ''provider'' ''model'' [] []
        (configOf ''majority'' 1 3 1000) 0 0
      = Inr [voteSample ''A'' ''S1'', voteSample ''B'' ''S2'', voteSample ''A'' ''S2'']
   \<and> votingLoop (\<lambda>site. rev) (configOf ''majority'' 1 3 1000)
        (parallelSample (stubEnv mixedAnswers rev) ''provider'' ''model'' [] []
           (configOf ''majority'' 1 3 1000) 0)
      = Committed ''A''
          (last (votesFor (configOf ''majority'' 1 3 1000) ''A''
                   [voteSample ''A'' ''S1'', voteSample ''B'' ''S2'', voteSample ''A'' ''S2'']))
          (tallyOf (configOf ''majority'' 1 3 1000)
             [voteSample ''A'' ''S1'', voteSample ''B'' ''S2'', voteSample ''A'' ''S2''])
   \<and> last (votesFor (configOf ''majority'' 1 3 1000) ''A''
              [voteSample ''A'' ''S1'', voteSample ''B'' ''S2'', voteSample ''A'' ''S2''])
      = voteSample ''A'' ''S2''
   \<and> votes (tallyOf (configOf ''majority'' 1 3 1000)
               [voteSample ''A'' ''S1'', voteSample ''B'' ''S2'', voteSample ''A'' ''S2''])
      = [(''A'', 2), (''B'', 1)]
   \<and> (\<forall>a. length (votesFor (configOf ''majority'' 1 3 1000) a
                      [voteSample ''A'' ''S1'', voteSample ''B'' ''S2'', voteSample ''A'' ''S2''])
            \<le> length (votesFor (configOf ''majority'' 1 3 1000) ''A''
                      [voteSample ''A'' ''S1'', voteSample ''B'' ''S2'', voteSample ''A'' ''S2'']))"
proof -
  let ?c = "configOf ''majority'' 1 3 1000"
  let ?H = "[voteSample ''A'' ''S1'', voteSample ''B'' ''S2'', voteSample ''A'' ''S2'']"
  let ?sampler = "parallelSample (stubEnv mixedAnswers rev) ''provider'' ''model'' [] [] ?c 0"
  let ?drawn = "\<lambda>rnd. [sampleOf (mixedAnswers 0 rnd 0), sampleOf (mixedAnswers 0 rnd 1),
                        sampleOf (mixedAnswers 0 rnd 2)]"
  have maj: "VotingStrategy ?c = ''majority''"
    by simp
  have vis: "visitsEachEntryOnce (\<lambda>site. rev)"
    by (simp add: visitsEachEntryOnce_def)
  have smp: "\<forall>rnd \<in> set [0..MaxRetries ?c - 1]. ?sampler rnd = Inr (?drawn rnd)"
    by (simp add: round_of_three)
  have first: "?sampler 0 = Inr ?H"
    by (simp add: round_of_three mixedAnswers_def)
  have due: "majorityRounds ?c [] (map ?drawn [0..99]) = Some ?H"
    by (simp add: upto_rec1 [of 0 99] mixedAnswers_def acceptedIn_def accept_vote wrap64_def)
  have "\<exists>w. votingLoop (\<lambda>site. rev) ?c ?sampler
               = Committed w (last (votesFor ?c w ?H)) (tallyOf ?c ?H)
             \<and> votesFor ?c w ?H \<noteq> []
             \<and> (\<forall>a. length (votesFor ?c a ?H) \<le> length (votesFor ?c w ?H))
             \<and> (\<forall>a. voteCount (votes (tallyOf ?c ?H)) a = int (length (votesFor ?c a ?H)))"
    using majority_winner_at_first_round_with_3k_samples_drawn [OF maj smp vis]
    by (simp add: due)
  then obtain w where
    w: "votingLoop (\<lambda>site. rev) ?c ?sampler
          = Committed w (last (votesFor ?c w ?H)) (tallyOf ?c ?H)"
       "\<forall>a. length (votesFor ?c a ?H) \<le> length (votesFor ?c w ?H)"
    by blast
  have "w = ''A''"
    using w(1) by (simp add: voting_mixed_majority)
  then have a: "votingLoop (\<lambda>site. rev) ?c ?sampler
          = Committed ''A'' (last (votesFor ?c ''A'' ?H)) (tallyOf ?c ?H)"
    and b: "\<forall>a. length (votesFor ?c a ?H) \<le> length (votesFor ?c ''A'' ?H)"
    using w by simp_all
  have c: "last (votesFor ?c ''A'' ?H) = voteSample ''A'' ''S2''"
    by (simp add: votesFor_def acceptedIn_def accept_vote)
  have d: "votes (tallyOf ?c ?H) = [(''A'', 2), (''B'', 1)]"
    by (simp add: tallyOf_def tallyStep_def accept_vote vote_defs)
  show ?thesis
    using maj vis first a b c d by (intro conjI)
qed

subsection \<open>Representative samples\<close>

lemma committed_step_uses_voting_loop:
  assumes "executeMicrostepWithVoting E step config st la strat i n = (evs, Inr (sr, w, st', None))"
  shows "\<exists>sampler smp vs. stepSampler E step config st la strat i = Some sampler
           \<and> votingLoop (rangeOrder E i) config sampler = Committed w smp vs
           \<and> st' = NextState smp \<and> srOutput sr = GoString (Content smp)"
  using assms
  by (auto simp: executeMicrostepWithVoting_def stepSampler_def failStep_def Let_def
           split: if_splits sum.splits vote_outcome.splits)

lemma last_of_prefix:
  assumes "xs \<noteq> []"
  shows "last xs = (xs @ ys) ! (length xs - 1)"
  using assms by (simp add: nth_append last_conv_nth)

text \<open>
  Claim C7, as amended. For every committed step there is a prefix of the samples of the
  step, the samples processed up to the commit, such that the tally keeps, for every
  action, the number of non-rejected samples of the prefix that voted for it and, as its
  representative, the last of them (each vote overwrites the representative); an action
  without a vote has no entry. In particular the representative of the winning action is
  the \<open>c\<close>-th non-rejected sample voting for it in the order of processing, \<open>c\<close> being the
  winner's vote count at the commit. The committed next state and the step's output are
  taken from that sample.
\<close>

theorem committed_state_comes_from_latest_vote:
  assumes "executeMicrostepWithVoting E step config st la strat i n = (evs, Inr (sr, w, st', None))"
  shows "\<exists>sampler smp vs c processed rest.
           stepSampler E step config st la strat i = Some sampler
           \<and> votingLoop (rangeOrder E i) config sampler = Committed w smp vs
           \<and> sampleStream config sampler = processed @ rest
           \<and> (\<forall>a. samples vs a
                     = (if votesFor config a processed = [] then None
                        else Some (last (votesFor config a processed))))
           \<and> (\<forall>a. map_of (votes vs) a
                     = (if votesFor config a processed = [] then None
                        else Some (int (length (votesFor config a processed)))))
           \<and> map_of (votes vs) w = Some (int c) \<and> 1 \<le> c
           \<and> c \<le> length (votesFor config w (sampleStream config sampler))
           \<and> samples vs w = Some smp
           \<and> smp = votesFor config w (sampleStream config sampler) ! (c - 1)
           \<and> st' = NextState smp
           \<and> srOutput sr = GoString (Content smp)"
proof -
  from committed_step_uses_voting_loop [OF assms]
  obtain sampler smp vs where
    a: "stepSampler E step config st la strat i = Some sampler"
       "votingLoop (rangeOrder E i) config sampler = Committed w smp vs"
       "st' = NextState smp" "srOutput sr = GoString (Content smp)"
    by blast
  from votingLoop_commit [OF a(2)]
  obtain ys zs where st: "sampleStream config sampler = ys @ zs"
    and r: "represents config vs ys" and s: "samples vs w = Some smp"
    by blast
  let ?vf = "votesFor config w ys"
  have ne: "?vf \<noteq> []"
    using r s by (auto simp: represents_def split: if_splits)
  have cnt: "map_of (votes vs) w = Some (int (length ?vf))" and rep: "smp = last ?vf"
    using r s ne by (auto simp: represents_def)
  have all: "votesFor config w (sampleStream config sampler) = ?vf @ votesFor config w zs"
    by (simp add: st votesFor_append)
  have nth: "smp = votesFor config w (sampleStream config sampler) ! (length ?vf - 1)"
    unfolding all rep by (rule last_of_prefix [OF ne])
  have le: "1 \<le> length ?vf" "length ?vf \<le> length (votesFor config w (sampleStream config sampler))"
    using ne by (simp_all add: all Suc_le_eq)
  have per: "\<forall>a. samples vs a
                     = (if votesFor config a ys = [] then None
                        else Some (last (votesFor config a ys)))"
       "\<forall>a. map_of (votes vs) a
                     = (if votesFor config a ys = [] then None
                        else Some (int (length (votesFor config a ys))))"
    using r by (simp_all add: represents_def)
  show ?thesis
    using a st per cnt le s nth by blast
qed

lemma config_k2:
  "loadMDAPConfig (pipelineOf ms ps [(''k'', NumberValue 2)]) = configOf ''first-to-ahead-by-k'' 2 3 1000"
  by (simp add: config_defs configOf_def)

lemma voting_two_states:
  "votingLoop (\<lambda>site. id) (configOf ''first-to-ahead-by-k'' 2 3 interval)
      (parallelSample (stubEnv twoStates id) p m sp pr
          (configOf ''first-to-ahead-by-k'' 2 3 interval) stepIdx)
   = Committed ''A'' (voteSample ''A'' ''S2'')
       \<lparr> votes = [(''A'', 2)], samples = [''A'' \<mapsto> voteSample ''A'' ''S2''],
         totalSamples = 3, rejectedSamples = 0 \<rparr>"
  by (simp add: votingLoop_unfold round_of_three twoStates_def accept_vote vote_defs)

lemma exec_two_states:
  "executeMicrostepWithVoting (stubEnv twoStates id) moveStep
      (configOf ''first-to-ahead-by-k'' 2 3 1000) (GoString ''S0'') [] [] 0 1
   = ([\<lparr> evType = ProgressTypeStep, evStep = ''move'', evProgress = 0, evMetadata = [] \<rparr>],
      Inr (\<lparr> srName = ''move'', srSuccess = True,
              srOutput = GoString ''move = A\<newline>next_state = S2'', srError = None \<rparr>,
           ''A'', GoString ''S2'', None))"
  by (simp add: exec_stub voting_two_states stepEvents_def goMod_def goDiv_def)


lemma run_two_states:
  "snd (runMDAP (stubEnv twoStates id) (pipelineOf [moveStep] [] [(''k'', NumberValue 2)]))
     = Completed
   \<and> state (fst (runMDAP (stubEnv twoStates id)
                 (pipelineOf [moveStep] [] [(''k'', NumberValue 2)]))) = GoString ''S2''"
  by (simp add: run_defs config_k2 exec_stub voting_two_states show_defs)

text \<open>
  Claim C7 as stated fails. With \<open>k = 2\<close>, the first sample votes for \<open>A\<close> with next state
  \<open>S1\<close> and the second votes for \<open>A\<close> with next state \<open>S2\<close>. The step commits \<open>A\<close> on the
  second vote, and the committed state is \<open>S2\<close>, the next state of the last-seen sample,
  not \<open>S1\<close>, the one of the first-seen sample.
\<close>

theorem committed_state_not_from_first_seen_sample:
  "parallelSample (stubEnv twoStates id) ''provider'' ''model'' [] []
      (configOf ''first-to-ahead-by-k'' 2 3 1000) 0 0
     = Inr [voteSample ''A'' ''S1'', voteSample ''A'' ''S2'', voteSample ''A'' ''S2'']
   \<and> hd (votesFor (configOf ''first-to-ahead-by-k'' 2 3 1000) ''A''
            [voteSample ''A'' ''S1'', voteSample ''A'' ''S2'', voteSample ''A'' ''S2''])
       = voteSample ''A'' ''S1''
   \<and> NextState (voteSample ''A'' ''S1'') = GoString ''S1''
   \<and> executeMicrostepWithVoting (stubEnv twoStates id) moveStep
        (configOf ''first-to-ahead-by-k'' 2 3 1000) (GoString ''S0'') [] [] 0 1
      = ([\<lparr> evType = ProgressTypeStep, evStep = ''move'', evProgress = 0, evMetadata = [] \<rparr>],
         Inr (\<lparr> srName = ''move'', srSuccess = True,
                 srOutput = GoString ''move = A\<newline>next_state = S2'', srError = None \<rparr>,
              ''A'', GoString ''S2'', None))
   \<and> snd (runMDAP (stubEnv twoStates id) (pipelineOf [moveStep] [] [(''k'', NumberValue 2)]))
       = Completed
   \<and> state (fst (runMDAP (stubEnv twoStates id)
                 (pipelineOf [moveStep] [] [(''k'', NumberValue 2)]))) = GoString ''S2''"
  using run_two_states
  by (simp add: exec_two_states round_of_three twoStates_def votesFor_def acceptedIn_def
        accept_vote)

text \<open>Two actions on the tally, the winner decided in the second round.\<close>

lemma voting_mixed_fta:
  "votingLoop (\<lambda>site. id) (configOf ''first-to-ahead-by-k'' 2 3 interval)
      (parallelSample (stubEnv mixedAnswers ord) p m sp pr
          (configOf ''first-to-ahead-by-k'' 2 3 interval) stepIdx)
   = Committed ''A'' (voteSample ''A'' ''S2'')
       \<lparr> votes = [(''A'', 3), (''B'', 1)],
         samples = [''A'' \<mapsto> voteSample ''A'' ''S1'', ''B'' \<mapsto> voteSample ''B'' ''S2'',
                    ''A'' \<mapsto> voteSample ''A'' ''S2''],
         totalSamples = 6, rejectedSamples = 0 \<rparr>"
  by (simp add: votingLoop_unfold2 round_of_three mixedAnswers_def accept_vote vote_defs)

lemma exec_mixed:
  "executeMicrostepWithVoting (stubEnv mixedAnswers id) moveStep
      (configOf ''first-to-ahead-by-k'' 2 3 1000) (GoString ''S0'') [] [] 0 1
   = ([\<lparr> evType = ProgressTypeStep, evStep = ''move'', evProgress = 0, evMetadata = [] \<rparr>],
      Inr (\<lparr> srName = ''move'', srSuccess = True,
              srOutput = GoString ''move = A\<newline>next_state = S2'', srError = None \<rparr>,
           ''A'', GoString ''S2'', None))"
  by (simp add: exec_stub voting_mixed_fta stepEvents_def goMod_def goDiv_def)

theorem committed_state_comes_from_latest_vote_witness:
  "executeMicrostepWithVoting (stubEnv mixedAnswers id) moveStep
      (configOf ''first-to-ahead-by-k'' 2 3 1000) (GoString ''S0'') [] [] 0 1
     = ([\<lparr> evType = ProgressTypeStep, evStep = ''move'', evProgress = 0, evMetadata = [] \<rparr>],
        Inr (\<lparr> srName = ''move'', srSuccess = True,
                srOutput = GoString ''move = A\<newline>next_state = S2'', srError = None \<rparr>,
             ''A'', GoString ''S2'', None))
   \<and> votingLoop (rangeOrder (stubEnv mixedAnswers id) 0)
        (configOf ''first-to-ahead-by-k'' 2 3 1000)
        (parallelSample (stubEnv mixedAnswers id) ''provider'' ''model''
           (''Solve the puzzle.'' @ criticalInstructions)
           (buildMDAPPrompt moveStep (GoString ''S0'') [] [])
           (configOf ''first-to-ahead-by-k'' 2 3 1000) 0)
      = Committed ''A'' (voteSample ''A'' ''S2'')
          \<lparr> votes = [(''A'', 3), (''B'', 1)],
            samples = [''A'' \<mapsto> voteSample ''A'' ''S1'', ''B'' \<mapsto> voteSample ''B'' ''S2'',
                       ''A'' \<mapsto> voteSample ''A'' ''S2''],
            totalSamples = 6, rejectedSamples = 0 \<rparr>
   \<and> (\<exists>sampler smp vs c processed rest.
         stepSampler (stubEnv mixedAnswers id) moveStep (configOf ''first-to-ahead-by-k'' 2 3 1000)
            (GoString ''S0'') [] [] 0 = Some sampler
         \<and> votingLoop (rangeOrder (stubEnv mixedAnswers id) 0)
              (configOf ''first-to-ahead-by-k'' 2 3 1000) sampler
             = Committed ''A'' smp vs
         \<and> sampleStream (configOf ''first-to-ahead-by-k'' 2 3 1000) sampler = processed @ rest
         \<and> (\<forall>a. samples vs a
                   = (if votesFor (configOf ''first-to-ahead-by-k'' 2 3 1000) a processed = []
                      then None
                      else Some (last (votesFor (configOf ''first-to-ahead-by-k'' 2 3 1000) a
                                         processed))))
         \<and> (\<forall>a. map_of (votes vs) a
                   = (if votesFor (configOf ''first-to-ahead-by-k'' 2 3 1000) a processed = []
                      then None
                      else Some (int (length (votesFor (configOf ''first-to-ahead-by-k'' 2 3 1000)
                                                a processed)))))
         \<and> map_of (votes vs) ''A'' = Some (int c) \<and> 1 \<le> c
         \<and> c \<le> length (votesFor (configOf ''first-to-ahead-by-k'' 2 3 1000) ''A''
                      (sampleStream (configOf ''first-to-ahead-by-k'' 2 3 1000) sampler))
         \<and> samples vs ''A'' = Some smp
         \<and> smp = votesFor (configOf ''first-to-ahead-by-k'' 2 3 1000) ''A''
                    (sampleStream (configOf ''first-to-ahead-by-k'' 2 3 1000) sampler) ! (c - 1)
         \<and> GoString ''S2'' = NextState smp
         \<and> srOutput \<lparr> srName = ''move'', srSuccess = True,
                      srOutput = GoString ''move = A\<newline>next_state = S2'', srError = None \<rparr>
             = GoString (Content smp))"
proof -
  have v: "votingLoop (rangeOrder (stubEnv mixedAnswers id) 0)
        (configOf ''first-to-ahead-by-k'' 2 3 1000)
        (parallelSample (stubEnv mixedAnswers id) ''provider'' ''model''
           (''Solve the puzzle.'' @ criticalInstructions)
           (buildMDAPPrompt moveStep (GoString ''S0'') [] [])
           (configOf ''first-to-ahead-by-k'' 2 3 1000) 0)
      = Committed ''A'' (voteSample ''A'' ''S2'')
          \<lparr> votes = [(''A'', 3), (''B'', 1)],
            samples = [''A'' \<mapsto> voteSample ''A'' ''S1'', ''B'' \<mapsto> voteSample ''B'' ''S2'',
                       ''A'' \<mapsto> voteSample ''A'' ''S2''],
            totalSamples = 6, rejectedSamples = 0 \<rparr>"
    by (simp add: voting_mixed_fta)
  show ?thesis
    by (intro conjI exec_mixed v committed_state_comes_from_latest_vote [OF exec_mixed])
qed

subsection \<open>Failure of a step\<close>

lemma takeCheckpoint_keeps [simp]:
  "ExecutionResult (result (takeCheckpoint config i ls)) = ExecutionResult (result ls)"
  "TotalMicrosteps (result (takeCheckpoint config i ls)) = TotalMicrosteps (result ls)"
  "state (takeCheckpoint config i ls) = state ls"
  "lastAction (takeCheckpoint config i ls) = lastAction ls"
  by (simp_all add: takeCheckpoint_def)



























end
